theory Spec2Isabelle
  imports Main
begin

section \<open>JavaScript string primitives used by the parsers\<close>

text \<open>
  A \<^typ>\<open>string\<close> models a JavaScript string whose UTF-16 code units are all below 256;
  a \<^typ>\<open>char\<close> is one code unit.
\<close>

definition is_ws :: "char \<Rightarrow> bool" where
  \<comment> \<open>the white space and line terminators that \<^verbatim>\<open>String.prototype.trim\<close> strips
      (TAB, LF, VT, FF, CR, SPACE, NBSP)\<close>
  "is_ws c = (c = CHR 0x09 \<or> c = CHR 0x0A \<or> c = CHR 0x0B \<or> c = CHR 0x0C \<or> c = CHR 0x0D
              \<or> c = CHR 0x20 \<or> c = CHR 0xA0)"

definition trim :: "string \<Rightarrow> string" where
  "trim s = rev (dropWhile is_ws (rev (dropWhile is_ws s)))"

fun startsWith :: "string \<Rightarrow> string \<Rightarrow> bool" where
  "startsWith s [] = True"
| "startsWith [] (p # ps) = False"
| "startsWith (c # cs) (p # ps) = (c = p \<and> startsWith cs ps)"

fun indexOf :: "string \<Rightarrow> string \<Rightarrow> nat option" where
  \<comment> \<open>\<^verbatim>\<open>s.indexOf(sub)\<close>; \<open>None\<close> stands for -1\<close>
  "indexOf [] sub = (if sub = [] then Some 0 else None)"
| "indexOf (c # cs) sub =
     (if startsWith (c # cs) sub then Some 0 else map_option Suc (indexOf cs sub))"

definition str_includes :: "string \<Rightarrow> string \<Rightarrow> bool" where
  "str_includes s sub = (indexOf s sub \<noteq> None)"

fun lastIndexOfChar :: "string \<Rightarrow> char \<Rightarrow> nat option" where
  "lastIndexOfChar [] c = None"
| "lastIndexOfChar (x # xs) c =
     (case lastIndexOfChar xs c of
        Some i \<Rightarrow> Some (Suc i)
      | None \<Rightarrow> if x = c then Some 0 else None)"

definition lastIndexOfCharFrom :: "string \<Rightarrow> char \<Rightarrow> nat option \<Rightarrow> nat option" where
  \<comment> \<open>\<^verbatim>\<open>s.lastIndexOf(c, from)\<close>: the last occurrence at an index \<open>\<le> from\<close>; a negative
      \<open>from\<close> (here \<open>None\<close>, the -1 of a failed \<^verbatim>\<open>indexOf\<close>) is clamped to 0\<close>
  "lastIndexOfCharFrom s c from =
     lastIndexOfChar (take (Suc (case from of None \<Rightarrow> 0 | Some i \<Rightarrow> i)) s) c"

fun split_dotdot :: "string \<Rightarrow> string list" where
  \<comment> \<open>\<^verbatim>\<open>s.split("..")\<close>: cut at every occurrence of the separator, scanning left to right\<close>
  "split_dotdot [] = [[]]"
| "split_dotdot [a] = [[a]]"
| "split_dotdot (a # b # cs) =
     (if a = CHR ''.'' \<and> b = CHR ''.'' then [] # split_dotdot cs
      else (case split_dotdot (b # cs) of
              [] \<Rightarrow> [[a]]
            | p # ps \<Rightarrow> (a # p) # ps))"

fun split_char :: "char \<Rightarrow> string \<Rightarrow> string list" where
  \<comment> \<open>\<^verbatim>\<open>s.split(c)\<close> for a one-character separator\<close>
  "split_char c [] = [[]]"
| "split_char c (x # xs) =
     (if x = c then [] # split_char c xs
      else (case split_char c xs of
              [] \<Rightarrow> [[x]]
            | p # ps \<Rightarrow> (x # p) # ps))"

definition digit_val :: "char \<Rightarrow> nat" where
  "digit_val c = of_char c - 48"

definition parseInt :: "string \<Rightarrow> nat" where
  \<comment> \<open>\<^verbatim>\<open>parseInt(ds, 10)\<close> on a string of decimal digits; the code holds the result in a
      double, so the two agree for values below \<open>2 ^ 53\<close>\<close>
  "parseInt ds = foldl (\<lambda>n c. 10 * n + digit_val c) 0 ds"

fun show_nat :: "nat \<Rightarrow> string" where
  \<comment> \<open>the decimal text that a template literal gives a non-negative integer; the code
      prints a double, so the two agree for values below \<open>2 ^ 53\<close> (above, the double is
      rounded, and from \<open>10 ^ 21\<close> it is printed in exponent notation)\<close>
  "show_nat n =
     (if n < 10 then [char_of (48 + n)] else show_nat (n div 10) @ [char_of (48 + n mod 10)])"

declare show_nat.simps [simp del]

section \<open>Regular expressions\<close>

text \<open>
  The patterns of the source use literals, greedy repetitions of one character class
  (plain or as a capture group) and optional groups; all are anchored at both ends.
  \<open>rx_match\<close> is a backtracking matcher with the priorities of the JavaScript engine:
  a greedy repetition tries the longest run first, an optional group is tried before it is
  skipped, and the first complete match is returned with its captures in order.
\<close>

datatype cclass =
    AnyChar         \<comment> \<open>\<^verbatim>\<open>.\<close> : anything but a line terminator\<close>
  | NotChar char    \<comment> \<open>\<^verbatim>\<open>[^c]\<close>\<close>
  | Digit           \<comment> \<open>\<^verbatim>\<open>\d\<close>\<close>
  | Hex             \<comment> \<open>\<^verbatim>\<open>[a-f0-9]\<close>\<close>

datatype rx =
    Lit char                          \<comment> \<open>one literal character\<close>
  | Rep cclass nat "nat option"       \<comment> \<open>class repeated at least/at most, greedy\<close>
  | Cap cclass nat "nat option"       \<comment> \<open>the same inside a capture group\<close>
  | Opt "rx list"                     \<comment> \<open>\<^verbatim>\<open>(...)?\<close>, its capture never read by the source\<close>

definition canon :: "bool \<Rightarrow> char \<Rightarrow> char" where
  \<comment> \<open>case folding of the \<^verbatim>\<open>i\<close> flag (upper-casing of ASCII letters)\<close>
  "canon ic c =
     (let n = (of_char c :: nat) in if ic \<and> 97 \<le> n \<and> n \<le> 122 then char_of (n - 32) else c)"

fun in_class :: "bool \<Rightarrow> cclass \<Rightarrow> char \<Rightarrow> bool" where
  "in_class ic AnyChar c = (c \<noteq> CHR 0x0A \<and> c \<noteq> CHR 0x0D)"
| "in_class ic (NotChar x) c = (canon ic c \<noteq> canon ic x)"
| "in_class ic Digit c = (48 \<le> (of_char c :: nat) \<and> (of_char c :: nat) \<le> 57)"
| "in_class ic Hex c =
     (let n = (of_char (canon ic c) :: nat); m = (of_char c :: nat)
      in (48 \<le> m \<and> m \<le> 57) \<or> (97 \<le> m \<and> m \<le> 102) \<or> (ic \<and> 65 \<le> n \<and> n \<le> 70))"

definition run_len :: "bool \<Rightarrow> cclass \<Rightarrow> nat option \<Rightarrow> string \<Rightarrow> nat" where
  \<comment> \<open>how many characters a greedy repetition can take at most\<close>
  "run_len ic cl hi s =
     (let n = length (takeWhile (in_class ic cl) s)
      in case hi of None \<Rightarrow> n | Some h \<Rightarrow> min h n)"

fun first_down :: "(nat \<Rightarrow> 'a option) \<Rightarrow> nat \<Rightarrow> nat \<Rightarrow> 'a option" where
  \<comment> \<open>backtracking: try \<open>n\<close>, \<open>n - 1\<close>, ... down to \<open>lo\<close>\<close>
  "first_down f 0 lo = (if lo = 0 then f 0 else None)"
| "first_down f (Suc m) lo =
     (if Suc m < lo then None
      else (case f (Suc m) of Some r \<Rightarrow> Some r | None \<Rightarrow> first_down f m lo))"

fun rx_match :: "bool \<Rightarrow> rx list \<Rightarrow> string \<Rightarrow> string list \<Rightarrow> string list option" where
  "rx_match ic [] s caps = (if s = [] then Some caps else None)"
| "rx_match ic (Lit c # r) s caps =
     (case s of
        [] \<Rightarrow> None
      | x # xs \<Rightarrow> if canon ic x = canon ic c then rx_match ic r xs caps else None)"
| "rx_match ic (Rep cl lo hi # r) s caps =
     first_down (\<lambda>k. rx_match ic r (drop k s) caps) (run_len ic cl hi s) lo"
| "rx_match ic (Cap cl lo hi # r) s caps =
     first_down (\<lambda>k. rx_match ic r (drop k s) (caps @ [take k s])) (run_len ic cl hi s) lo"
| "rx_match ic (Opt xs # r) s caps =
     (case rx_match ic (xs @ r) s caps of
        Some c \<Rightarrow> Some c
      | None \<Rightarrow> rx_match ic r s caps)"

definition lits :: "string \<Rightarrow> rx list" where
  "lits s = map Lit s"


section \<open>Data model (types.ts)\<close>

datatype RefType =
    LocalRange | RemoteRange | PrRef | GithubUrl | PrRange | GitUrlRange
  | GithubCommitUrl | GithubPrChangesUrl | GithubCompareUrl | GitlabMrRef

record GitHubPRUrl =
  owner :: string
  repo :: string
  number :: nat

text \<open>An optional field that is absent (\<^verbatim>\<open>undefined\<close>) is \<open>None\<close>.\<close>

record RefRange =
  type :: RefType
  left :: string
  right :: string
  ownerRepo :: "string option"
  prNumber :: "nat option"
  leftPr :: "GitHubPRUrl option"
  rightPr :: "GitHubPRUrl option"
  leftGitUrl :: "string option"
  rightGitUrl :: "string option"
  commitSha :: "string option"
  leftCommitSha :: "string option"
  rightCommitSha :: "string option"
  leftRef :: "string option"
  rightRef :: "string option"
  rightOwner :: "string option"
  rightRepo :: "string option"

definition mkRange :: "RefType \<Rightarrow> string \<Rightarrow> string \<Rightarrow> RefRange" where
  \<comment> \<open>an object literal with only \<^verbatim>\<open>type\<close>, \<^verbatim>\<open>left\<close> and \<^verbatim>\<open>right\<close> set\<close>
  "mkRange t l r =
     \<lparr> type = t, left = l, right = r, ownerRepo = None, prNumber = None,
       leftPr = None, rightPr = None, leftGitUrl = None, rightGitUrl = None,
       commitSha = None, leftCommitSha = None, rightCommitSha = None,
       leftRef = None, rightRef = None, rightOwner = None, rightRepo = None \<rparr>"

datatype ExitCode = SUCCESS | NO_FILES_MATCHED | INVALID_INPUT | GIT_ERROR

fun exit_code_value :: "ExitCode \<Rightarrow> nat" where
  "exit_code_value SUCCESS = 0"
| "exit_code_value NO_FILES_MATCHED = 1"
| "exit_code_value INVALID_INPUT = 2"
| "exit_code_value GIT_ERROR = 3"

text \<open>
  What the code throws: a \<^verbatim>\<open>DiffxError\<close> with its message and exit code, or a plain
  \<^verbatim>\<open>Error\<close> with a message (raised by the git client, or by \<^verbatim>\<open>new Error(...)\<close>).
\<close>

datatype exn = DiffxError string ExitCode | Error string

fun message :: "exn \<Rightarrow> string" where
  "message (DiffxError m c) = m"
| "message (Error m) = m"

section \<open>Format matchers (parsers/range)\<close>

definition github_repo_url :: "rx list" where
  \<comment> \<open>\<^verbatim>\<open>^https?:\/\/github\.com\/([^/]+)\/([^/]+)\<close>\<close>
  "github_repo_url =
     lits ''http'' @ [Opt [Lit CHR ''s'']] @ lits ''://github.com/'' @
     [Cap (NotChar CHR ''/'') 1 None, Lit CHR ''/'', Cap (NotChar CHR ''/'') 1 None]"

definition parseGitHubPRUrl :: "string \<Rightarrow> GitHubPRUrl option" where
  \<comment> \<open>\<^verbatim>\<open>/^https?:\/\/github\.com\/([^/]+)\/([^/]+)\/pull\/(\d+)(\/.*)?$/i\<close>\<close>
  "parseGitHubPRUrl input =
     (case rx_match True
             (github_repo_url @ lits ''/pull/'' @
              [Cap Digit 1 None, Opt [Lit CHR ''/'', Rep AnyChar 0 None]]) input [] of
        Some [o', r, n] \<Rightarrow> Some \<lparr> owner = o', repo = r, number = parseInt n \<rparr>
      | _ \<Rightarrow> None)"

definition parseGitHubCommitUrl :: "string \<Rightarrow> (string \<times> string \<times> string) option" where
  \<comment> \<open>\<^verbatim>\<open>/^https?:\/\/github\.com\/([^/]+)\/([^/]+)\/commit\/([a-f0-9]+)$/i\<close>;
      the result is (owner, repo, commitSha)\<close>
  "parseGitHubCommitUrl input =
     (case rx_match True (github_repo_url @ lits ''/commit/'' @ [Cap Hex 1 None]) input [] of
        Some [o', r, sha] \<Rightarrow> Some (o', r, sha)
      | _ \<Rightarrow> None)"

definition parseGitHubPRChangesUrl ::
  "string \<Rightarrow> (string \<times> string \<times> nat \<times> string \<times> string) option" where
  \<comment> \<open>\<^verbatim>\<open>/^https?:\/\/github\.com\/([^/]+)\/([^/]+)\/pull\/(\d+)\/changes\/([a-f0-9]+)\.\.([a-f0-9]+)$/i\<close>;
      the result is (owner, repo, prNumber, leftCommitSha, rightCommitSha)\<close>
  "parseGitHubPRChangesUrl input =
     (case rx_match True
             (github_repo_url @ lits ''/pull/'' @ [Cap Digit 1 None] @ lits ''/changes/'' @
              [Cap Hex 1 None] @ lits ''..'' @ [Cap Hex 1 None]) input [] of
        Some [o', r, n, l, r'] \<Rightarrow> Some (o', r, parseInt n, l, r')
      | _ \<Rightarrow> None)"

record GitHubCompareUrl =
  cmp_owner :: string
  cmp_repo :: string
  cmp_leftRef :: string
  cmp_rightRef :: string
  cmp_rightOwner :: "string option"
  cmp_rightRepo :: "string option"

definition parseGitHubCompareUrl :: "string \<Rightarrow> GitHubCompareUrl option" where
  \<comment> \<open>\<^verbatim>\<open>/^https?:\/\/github\.com\/([^/]+)\/([^/]+)\/compare\/(.+)\.\.\.(.+)$/i\<close>, then the
      cross-fork forms \<^verbatim>\<open>/^([^:]+):([^:]+):(.+)$/\<close> and \<^verbatim>\<open>/^([^:]+):([^/]+)\/(.+)$/\<close>
      of the right side\<close>
  "parseGitHubCompareUrl input =
     (case rx_match True
             (github_repo_url @ lits ''/compare/'' @ [Cap AnyChar 1 None] @ lits ''...'' @
              [Cap AnyChar 1 None]) input [] of
        Some [o', r, lref, rref] \<Rightarrow>
          (case rx_match False
                  [Cap (NotChar CHR '':'') 1 None, Lit CHR '':'', Cap (NotChar CHR '':'') 1 None,
                   Lit CHR '':'', Cap AnyChar 1 None] rref [] of
             Some [ro, rr, ref] \<Rightarrow>
               Some \<lparr> cmp_owner = o', cmp_repo = r, cmp_leftRef = lref, cmp_rightRef = ref,
                      cmp_rightOwner = Some ro, cmp_rightRepo = Some rr \<rparr>
           | _ \<Rightarrow>
               (case rx_match False
                       [Cap (NotChar CHR '':'') 1 None, Lit CHR '':'',
                        Cap (NotChar CHR ''/'') 1 None, Lit CHR ''/'', Cap AnyChar 1 None] rref [] of
                  Some [ro, rr, ref] \<Rightarrow>
                    Some \<lparr> cmp_owner = o', cmp_repo = r, cmp_leftRef = lref, cmp_rightRef = ref,
                           cmp_rightOwner = Some ro, cmp_rightRepo = Some rr \<rparr>
                | _ \<Rightarrow>
                    Some \<lparr> cmp_owner = o', cmp_repo = r, cmp_leftRef = lref, cmp_rightRef = rref,
                           cmp_rightOwner = None, cmp_rightRepo = None \<rparr>))
      | _ \<Rightarrow> None)"

definition parsePRRef :: "string \<Rightarrow> GitHubPRUrl option" where
  \<comment> \<open>\<^verbatim>\<open>/^github:([^/]+)\/([^/]+)#(\d+)$/i\<close>\<close>
  "parsePRRef input =
     (case rx_match True
             (lits ''github:'' @
              [Cap (NotChar CHR ''/'') 1 None, Lit CHR ''/'', Cap (NotChar CHR ''/'') 1 None,
               Lit CHR ''#'', Cap Digit 1 None]) input [] of
        Some [o', r, n] \<Rightarrow> Some \<lparr> owner = o', repo = r, number = parseInt n \<rparr>
      | _ \<Rightarrow> None)"

definition parseHostRefRange :: "string \<Rightarrow> string \<Rightarrow> (string \<times> string \<times> string) option" where
  \<comment> \<open>the common body of \<^verbatim>\<open>parseGithubRefRange\<close> and \<^verbatim>\<open>parseGitlabRefRange\<close>:
      \<^verbatim>\<open>/^<host>:([^/]+)\/([^@]+)@(.+)\.\.(.+)$/i\<close>; the result is (ownerRepo, left, right)\<close>
  "parseHostRefRange host input =
     (case rx_match True
             (lits host @ lits '':'' @
              [Cap (NotChar CHR ''/'') 1 None, Lit CHR ''/'', Cap (NotChar CHR ''@'') 1 None,
               Lit CHR ''@'', Cap AnyChar 1 None] @ lits ''..'' @ [Cap AnyChar 1 None]) input [] of
        Some [o', r, l, r'] \<Rightarrow>
          (if o' = [] \<or> r = [] \<or> trim l = [] \<or> trim r' = [] then None
           else Some (o' @ ''/'' @ r, trim l, trim r'))
      | _ \<Rightarrow> None)"

definition parseGithubRefRange :: "string \<Rightarrow> (string \<times> string \<times> string) option" where
  "parseGithubRefRange input = parseHostRefRange ''github'' input"

definition parseGitlabRefRange :: "string \<Rightarrow> (string \<times> string \<times> string) option" where
  "parseGitlabRefRange input = parseHostRefRange ''gitlab'' input"

definition parseMRRef :: "string \<Rightarrow> GitHubPRUrl option" where
  \<comment> \<open>\<^verbatim>\<open>/^gitlab:([^/]+)\/([^/]+)!(\d+)$/i\<close>; \<open>number\<close> is the source's \<^verbatim>\<open>mrNumber\<close>\<close>
  "parseMRRef input =
     (case rx_match True
             (lits ''gitlab:'' @
              [Cap (NotChar CHR ''/'') 1 None, Lit CHR ''/'', Cap (NotChar CHR ''/'') 1 None,
               Lit CHR ''!'', Cap Digit 1 None]) input [] of
        Some [o', r, n] \<Rightarrow> Some \<lparr> owner = o', repo = r, number = parseInt n \<rparr>
      | _ \<Rightarrow> None)"

definition orElse :: "'a option \<Rightarrow> 'a option \<Rightarrow> 'a option" where
  \<comment> \<open>the \<^verbatim>\<open>??\<close> operator\<close>
  "orElse a b = (case a of Some x \<Rightarrow> Some x | None \<Rightarrow> b)"

definition parsePRRange :: "string \<Rightarrow> (GitHubPRUrl \<times> GitHubPRUrl) option" where
  "parsePRRange input =
     (if \<not> str_includes input ''..'' then None
      else (case split_dotdot input of
              [p0, p1] \<Rightarrow>
                (case (orElse (parseGitHubPRUrl (trim p0)) (parsePRRef (trim p0)),
                       orElse (parseGitHubPRUrl (trim p1)) (parsePRRef (trim p1))) of
                   (Some l, Some r) \<Rightarrow> Some (l, r)
                 | _ \<Rightarrow> None)
            | _ \<Rightarrow> None))"

definition parseRemoteSide :: "string \<Rightarrow> (string \<times> string \<times> string) option" where
  \<comment> \<open>\<^verbatim>\<open>/^([^/]+)\/([^@]+)@(.+)$/\<close>; the result is (owner, repo, ref), each trimmed\<close>
  "parseRemoteSide v =
     (case rx_match False
             [Cap (NotChar CHR ''/'') 1 None, Lit CHR ''/'', Cap (NotChar CHR ''@'') 1 None,
              Lit CHR ''@'', Cap AnyChar 1 None] v [] of
        Some [o', r, ref] \<Rightarrow>
          (if trim o' = [] \<or> trim r = [] \<or> trim ref = [] then None
           else Some (trim o', trim r, trim ref))
      | _ \<Rightarrow> None)"

definition parseRemoteRefRange :: "string \<Rightarrow> (string \<times> string \<times> string) option" where
  \<comment> \<open>the result is (left, right, ownerRepo)\<close>
  "parseRemoteRefRange input =
     (case indexOf input ''..'' of
        None \<Rightarrow> None
      | Some separatorIndex \<Rightarrow>
          (let leftPart = trim (take separatorIndex input);
               rightPart = trim (drop (separatorIndex + 2) input)
           in if leftPart = [] \<or> rightPart = [] then None
              else (case parseRemoteSide leftPart of
                      None \<Rightarrow> None
                    | Some (lo, lr, lref) \<Rightarrow>
                        (case parseRemoteSide rightPart of
                           Some (ro, rr, rref) \<Rightarrow>
                             (if ro \<noteq> lo \<or> rr \<noteq> lr then None
                              else Some (lo @ ''/'' @ lr @ ''@'' @ lref,
                                         ro @ ''/'' @ rr @ ''@'' @ rref,
                                         lo @ ''/'' @ lr))
                         | None \<Rightarrow>
                             Some (lo @ ''/'' @ lr @ ''@'' @ lref,
                                   lo @ ''/'' @ lr @ ''@'' @ rightPart,
                                   lo @ ''/'' @ lr)))))"

definition parseLocalRefRange :: "string \<Rightarrow> (string \<times> string) option" where
  "parseLocalRefRange input =
     (case split_dotdot input of
        [p0, p1] \<Rightarrow> (if p0 = [] \<or> p1 = [] then None else Some (trim p0, trim p1))
      | _ \<Rightarrow> None)"

definition isGitUrl :: "string \<Rightarrow> bool" where
  "isGitUrl s = (str_includes s ''://'' \<or> (str_includes s ''@'' \<and> str_includes s '':''))"

definition parseGitUrlRange_full :: "string \<Rightarrow> (string \<times> string \<times> string \<times> string) option" where
  \<comment> \<open>the first block of \<^verbatim>\<open>parseGitUrlRange\<close>: both sides carry their own URL\<close>
  "parseGitUrlRange_full input =
     (case indexOf input ''..'' of
        None \<Rightarrow> None
      | Some doubleDotIndex \<Rightarrow>
          (let leftPart = take doubleDotIndex input;
               rightPart = drop (doubleDotIndex + 2) input
           in case (lastIndexOfChar leftPart CHR ''@'', lastIndexOfChar rightPart CHR ''@'') of
                (Some lastAtLeft, Some lastAtRight) \<Rightarrow>
                  (let leftUrl = take lastAtLeft leftPart;
                       leftRef' = drop (lastAtLeft + 1) leftPart;
                       rightUrl = take lastAtRight rightPart;
                       rightRef' = drop (lastAtRight + 1) rightPart
                   in if isGitUrl leftUrl \<and> isGitUrl rightUrl
                      then Some (leftUrl, leftRef', rightUrl, rightRef') else None)
              | _ \<Rightarrow> None))"

definition parseGitUrlRange_short :: "string \<Rightarrow> (string \<times> string \<times> string \<times> string) option" where
  \<comment> \<open>the second block of \<^verbatim>\<open>parseGitUrlRange\<close>: one URL, \<^verbatim>\<open>url@left..right\<close>\<close>
  "parseGitUrlRange_short input =
     (case lastIndexOfCharFrom input CHR ''@'' (indexOf input ''..'') of
        None \<Rightarrow> None
      | Some atBeforeDoubleDot \<Rightarrow>
          (if \<not> str_includes input ''..'' then None
           else (let url = take atBeforeDoubleDot input;
                     refPart = drop (atBeforeDoubleDot + 1) input
                 in case split_dotdot refPart of
                      [p0, p1] \<Rightarrow> (if isGitUrl url then Some (url, p0, url, p1) else None)
                    | _ \<Rightarrow> None)))"

definition parseGitUrlRange :: "string \<Rightarrow> (string \<times> string \<times> string \<times> string) option" where
  \<comment> \<open>the result is (leftUrl, leftRef, rightUrl, rightRef)\<close>
  "parseGitUrlRange input = orElse (parseGitUrlRange_full input) (parseGitUrlRange_short input)"


section \<open>The range parser (parsers/range-parser.ts)\<close>

text \<open>The object literals that \<^verbatim>\<open>parseRangeInput\<close> returns, one per branch.\<close>

definition pr_range_of :: "GitHubPRUrl \<times> GitHubPRUrl \<Rightarrow> RefRange" where
  "pr_range_of p = (mkRange PrRange [] []) \<lparr> leftPr := Some (fst p), rightPr := Some (snd p) \<rparr>"

definition git_url_range_of :: "string \<times> string \<times> string \<times> string \<Rightarrow> RefRange" where
  "git_url_range_of g =
     (case g of (leftUrl, leftRef', rightUrl, rightRef') \<Rightarrow>
        (mkRange GitUrlRange leftRef' rightRef')
          \<lparr> leftGitUrl := Some leftUrl, rightGitUrl := Some rightUrl \<rparr>)"

definition compare_url_of :: "GitHubCompareUrl \<Rightarrow> RefRange" where
  "compare_url_of c =
     (mkRange GithubCompareUrl [] [])
       \<lparr> ownerRepo := Some (cmp_owner c @ ''/'' @ cmp_repo c),
         leftRef := Some (cmp_leftRef c), rightRef := Some (cmp_rightRef c),
         rightOwner := cmp_rightOwner c, rightRepo := cmp_rightRepo c \<rparr>"

definition pr_changes_url_of :: "string \<times> string \<times> nat \<times> string \<times> string \<Rightarrow> RefRange" where
  "pr_changes_url_of c =
     (case c of (o', r, n, l, r') \<Rightarrow>
        (mkRange GithubPrChangesUrl [] [])
          \<lparr> ownerRepo := Some (o' @ ''/'' @ r), prNumber := Some n,
            leftCommitSha := Some l, rightCommitSha := Some r' \<rparr>)"

definition github_url_of :: "GitHubPRUrl \<Rightarrow> RefRange" where
  "github_url_of pr =
     (mkRange GithubUrl [] [])
       \<lparr> ownerRepo := Some (owner pr @ ''/'' @ repo pr), prNumber := Some (number pr) \<rparr>"

definition commit_url_of :: "string \<times> string \<times> string \<Rightarrow> RefRange" where
  "commit_url_of c =
     (case c of (o', r, sha) \<Rightarrow>
        (mkRange GithubCommitUrl [] []) \<lparr> ownerRepo := Some (o' @ ''/'' @ r), commitSha := Some sha \<rparr>)"

definition host_ref_range_of :: "string \<Rightarrow> string \<times> string \<times> string \<Rightarrow> RefRange" where
  \<comment> \<open>\<^verbatim>\<open>const gitUrl = `git@<host>:${ownerRepo}.git`\<close>, used for both sides\<close>
  "host_ref_range_of host g =
     (case g of (ownerRepo', l, r) \<Rightarrow>
        (let gitUrl = ''git@'' @ host @ '':'' @ ownerRepo' @ ''.git''
         in (mkRange GitUrlRange l r) \<lparr> leftGitUrl := Some gitUrl, rightGitUrl := Some gitUrl \<rparr>))"

definition pr_ref_of :: "GitHubPRUrl \<Rightarrow> RefRange" where
  "pr_ref_of pr =
     (mkRange PrRef [] [])
       \<lparr> ownerRepo := Some (owner pr @ ''/'' @ repo pr), prNumber := Some (number pr) \<rparr>"

definition mr_ref_of :: "GitHubPRUrl \<Rightarrow> RefRange" where
  "mr_ref_of mr =
     (mkRange GitlabMrRef [] [])
       \<lparr> ownerRepo := Some (owner mr @ ''/'' @ repo mr), prNumber := Some (number mr) \<rparr>"

definition remote_range_of :: "string \<times> string \<times> string \<Rightarrow> RefRange" where
  "remote_range_of g =
     (case g of (l, r, ownerRepo') \<Rightarrow> (mkRange RemoteRange l r) \<lparr> ownerRepo := Some ownerRepo' \<rparr>)"

definition local_range_of :: "string \<times> string \<Rightarrow> RefRange" where
  "local_range_of g = mkRange LocalRange (fst g) (snd g)"

definition nl :: string where
  "nl = [CHR 0x0A]"

definition supported_formats :: string where
  "supported_formats =
     nl @ nl @ ''Supported formats:'' @ nl @
     ''  - Local refs: main..feature, abc123..def456'' @ nl @
     ''  - Remote refs: owner/repo@main..owner/repo@feature'' @ nl @
     ''  - Git URL: git@github.com:owner/repo.git@main..feature'' @ nl @
     ''  - Git URL (HTTPS): https://github.com/owner/repo.git@main..feature'' @ nl @
     ''  - GitHub refs: github:owner/repo@main..feature'' @ nl @
     ''  - GitHub PR ref: github:owner/repo#123'' @ nl @
     ''  - GitHub PR range: github:owner/repo#123..github:owner/repo#456'' @ nl @
     ''  - GitHub PR URL: https://github.com/owner/repo/pull/123'' @ nl @
     ''  - PR URL range: https://github.com/owner/repo/pull/123..https://github.com/owner/repo/pull/456'' @ nl @
     ''  - GitHub commit URL: https://github.com/owner/repo/commit/abc123'' @ nl @
     ''  - GitHub PR changes URL: https://github.com/owner/repo/pull/123/changes/abc123..def456'' @ nl @
     ''  - GitHub compare URL: https://github.com/owner/repo/compare/main...feature'' @ nl @
     ''  - Cross-fork compare: https://github.com/owner/repo/compare/main...other:repo:feature'' @ nl @
     ''  - GitLab refs: gitlab:owner/repo@main..feature'' @ nl @
     ''  - GitLab MR ref: gitlab:owner/repo!123''"

definition invalid_range :: "string \<Rightarrow> exn" where
  "invalid_range input =
     DiffxError (''Invalid range or URL: '' @ input @ supported_formats) INVALID_INPUT"

definition parseRangeInput :: "string \<Rightarrow> exn + RefRange" where
  "parseRangeInput input =
     (case parsePRRange input of Some prRange \<Rightarrow> Inr (pr_range_of prRange) | None \<Rightarrow>
     (case parseGitUrlRange input of Some gitUrlRange \<Rightarrow> Inr (git_url_range_of gitUrlRange) | None \<Rightarrow>
     (case parseGitHubCompareUrl input of Some githubCompare \<Rightarrow> Inr (compare_url_of githubCompare) | None \<Rightarrow>
     (case parseGitHubPRChangesUrl input of Some githubPrChanges \<Rightarrow> Inr (pr_changes_url_of githubPrChanges) | None \<Rightarrow>
     (case parseGitHubPRUrl input of Some githubPr \<Rightarrow> Inr (github_url_of githubPr) | None \<Rightarrow>
     (case parseGitHubCommitUrl input of Some githubCommit \<Rightarrow> Inr (commit_url_of githubCommit) | None \<Rightarrow>
     (case parseGithubRefRange input of Some githubRefRange \<Rightarrow> Inr (host_ref_range_of ''github.com'' githubRefRange) | None \<Rightarrow>
     (case parseGitlabRefRange input of Some gitlabRefRange \<Rightarrow> Inr (host_ref_range_of ''gitlab.com'' gitlabRefRange) | None \<Rightarrow>
     (case parsePRRef input of Some prRef \<Rightarrow> Inr (pr_ref_of prRef) | None \<Rightarrow>
     (case parseMRRef input of Some mrRef \<Rightarrow> Inr (mr_ref_of mrRef) | None \<Rightarrow>
     (case parseRemoteRefRange input of Some remoteRange \<Rightarrow> Inr (remote_range_of remoteRange) | None \<Rightarrow>
     (case parseLocalRefRange input of Some localRange \<Rightarrow> Inr (local_range_of localRange) | None \<Rightarrow>
      Inl (invalid_range input)))))))))))))"

subsection \<open>The precedence list in the specification's words\<close>

text \<open>
  The specification describes the parser as an ordered list of matchers, each returning a
  tagged range or nothing, of which the first success wins.
\<close>

definition matcher_order :: "(string \<Rightarrow> RefRange option) list" where
  "matcher_order =
     [ map_option pr_range_of \<circ> parsePRRange,
       map_option git_url_range_of \<circ> parseGitUrlRange,
       map_option compare_url_of \<circ> parseGitHubCompareUrl,
       map_option pr_changes_url_of \<circ> parseGitHubPRChangesUrl,
       map_option github_url_of \<circ> parseGitHubPRUrl,
       map_option commit_url_of \<circ> parseGitHubCommitUrl,
       map_option (host_ref_range_of ''github.com'') \<circ> parseGithubRefRange,
       map_option (host_ref_range_of ''gitlab.com'') \<circ> parseGitlabRefRange,
       map_option pr_ref_of \<circ> parsePRRef,
       map_option mr_ref_of \<circ> parseMRRef,
       map_option remote_range_of \<circ> parseRemoteRefRange,
       map_option local_range_of \<circ> parseLocalRefRange ]"

fun first_success :: "('a \<Rightarrow> 'b option) list \<Rightarrow> 'a \<Rightarrow> 'b option" where
  "first_success [] x = None"
| "first_success (m # ms) x = (case m x of Some y \<Rightarrow> Some y | None \<Rightarrow> first_success ms x)"

section \<open>The git plumbing client (git/git-client.ts)\<close>

text \<open>
  The resolvers reach the repository through four git commands. The model keeps the list
  of commands issued so far and the set of refs that exist under the local ref database.
  What a command answers is the environment's choice and may depend on everything that
  happened before; a \<open>git_env\<close> fixes those answers.
\<close>

datatype git_call =
    Fetch string "string list" nat    \<comment> \<open>\<^verbatim>\<open>git fetch --no-tags --depth <depth> <url> <refspecs>\<close>\<close>
  | MergeBase string string           \<comment> \<open>\<^verbatim>\<open>git merge-base <left> <right>\<close>\<close>
  | UpdateRefDelete string            \<comment> \<open>\<^verbatim>\<open>git update-ref -d <ref>\<close>\<close>
  | RevParseVerify string             \<comment> \<open>\<^verbatim>\<open>git rev-parse --verify <ref>\<close>\<close>

record git_state =
  calls :: "git_call list"
  refs :: "string set"

record git_env =
  fetch_error :: "git_state \<Rightarrow> string \<Rightarrow> string list \<Rightarrow> nat \<Rightarrow> string option"
    \<comment> \<open>\<open>Some msg\<close>: the fetch fails with that message\<close>
  merge_base_result :: "git_state \<Rightarrow> string \<Rightarrow> string \<Rightarrow> string + string"
    \<comment> \<open>\<open>Inl msg\<close>: the command fails; \<open>Inr out\<close>: its standard output\<close>
  update_ref_error :: "git_state \<Rightarrow> string \<Rightarrow> string option"
  rev_parse_ok :: "git_state \<Rightarrow> string \<Rightarrow> bool"

type_synonym 'a io = "git_state \<Rightarrow> (exn + 'a) \<times> git_state"

definition logged :: "git_call \<Rightarrow> git_state \<Rightarrow> git_state" where
  "logged c s = s \<lparr> calls := calls s @ [c] \<rparr>"

text \<open>
  A refspec \<^verbatim>\<open>src:dst\<close> is kept as the pair \<open>(src, dst)\<close>; \<open>refspec_text\<close> is the
  string handed to git. A fetch that succeeds creates every destination ref; a fetch that
  fails is taken to create none.
\<close>

definition refspec_text :: "string \<times> string \<Rightarrow> string" where
  "refspec_text rs = fst rs @ '':'' @ snd rs"

definition fetchFromUrl :: "git_env \<Rightarrow> string \<Rightarrow> (string \<times> string) list \<Rightarrow> nat \<Rightarrow> unit io" where
  "fetchFromUrl env url refspecs depth s =
     (let s1 = logged (Fetch url (map refspec_text refspecs) depth) s
      in case fetch_error env s url (map refspec_text refspecs) depth of
           Some msg \<Rightarrow> (Inl (Error msg), s1)
         | None \<Rightarrow> (Inr (), s1 \<lparr> refs := refs s1 \<union> set (map snd refspecs) \<rparr>))"

definition mergeBase :: "git_env \<Rightarrow> string \<Rightarrow> string \<Rightarrow> string io" where
  "mergeBase env l r s =
     (let s1 = logged (MergeBase l r) s
      in case merge_base_result env s l r of
           Inl msg \<Rightarrow> (Inl (Error msg), s1)
         | Inr out \<Rightarrow> (Inr out, s1))"

definition refExistsAny :: "git_env \<Rightarrow> string \<Rightarrow> git_state \<Rightarrow> bool \<times> git_state" where
  \<comment> \<open>\<^verbatim>\<open>try { await revparse(["--verify", ref]); return true } catch { return false }\<close>\<close>
  "refExistsAny env ref s = (rev_parse_ok env s ref, logged (RevParseVerify ref) s)"

definition updateRefDelete :: "git_env \<Rightarrow> string \<Rightarrow> unit io" where
  "updateRefDelete env ref s =
     (let s1 = logged (UpdateRefDelete ref) s
      in case update_ref_error env s ref of
           Some msg \<Rightarrow> (Inl (Error msg), s1)
         | None \<Rightarrow> (Inr (), s1 \<lparr> refs := refs s1 - {ref} \<rparr>))"

fun promise_all :: "('a \<Rightarrow> unit io) \<Rightarrow> 'a list \<Rightarrow> unit io" where
  \<comment> \<open>\<^verbatim>\<open>Promise.all(xs.map(f))\<close>: every callback runs; the result is rejected with the
      first rejection, if there is one\<close>
  "promise_all f [] s = (Inr (), s)"
| "promise_all f (x # xs) s =
     (case f x s of
        (Inl e, s1) \<Rightarrow> (Inl e, snd (promise_all f xs s1))
      | (Inr u, s1) \<Rightarrow> promise_all f xs s1)"

definition deleteRef :: "git_env \<Rightarrow> string \<Rightarrow> unit io" where
  \<comment> \<open>the callback of \<^verbatim>\<open>deleteRefs\<close>:
      \<^verbatim>\<open>try { await raw(["update-ref", "-d", ref]) } catch { /* Ignore missing refs */ }\<close>\<close>
  "deleteRef env ref s =
     (case updateRefDelete env ref s of
        (Inl e, s1) \<Rightarrow> (Inr (), s1)
      | (Inr u, s1) \<Rightarrow> (Inr (), s1))"

definition deleteRefs :: "git_env \<Rightarrow> string list \<Rightarrow> unit io" where
  "deleteRefs env rs = promise_all (deleteRef env) rs"

section \<open>Resolvers (resolvers/*.ts)\<close>

text \<open>
  A resolver returns the two revisions and, when it fetched, a cleanup callback. Every
  callback in the source is \<^verbatim>\<open>async () => { await gitClient.deleteRefs(refs) }\<close>, so it is
  kept as the list \<open>refs\<close> it closes over, and \<open>run_cleanup\<close> invokes it.
  \<^verbatim>\<open>createTempRefPrefix()\<close> reads the clock and a random source; its result is the
  parameter \<open>tempPrefix\<close>.
\<close>

record ResolvedRefs =
  res_left :: string
  res_right :: string
  cleanup :: "string list option"

definition run_cleanup :: "git_env \<Rightarrow> ResolvedRefs \<Rightarrow> unit io" where
  "run_cleanup env r s = (case cleanup r of None \<Rightarrow> (Inr (), s) | Some rs \<Rightarrow> deleteRefs env rs s)"

definition falsy :: "string option \<Rightarrow> bool" where
  \<comment> \<open>\<^verbatim>\<open>!x\<close> for an optional string: absent or empty\<close>
  "falsy x = (case x of None \<Rightarrow> True | Some v \<Rightarrow> v = [])"

definition or_default :: "string option \<Rightarrow> string \<Rightarrow> string" where
  \<comment> \<open>\<^verbatim>\<open>x || d\<close>\<close>
  "or_default x d = (if falsy x then d else the x)"

definition wrap_git_error :: "string \<Rightarrow> 'a io \<Rightarrow> 'a io" where
  \<comment> \<open>\<^verbatim>\<open>try { body } catch (error) { throw new DiffxError(`<what>: ${error.message}`, GIT_ERROR) }\<close>\<close>
  "wrap_git_error what body s =
     (case body s of
        (Inl e, s1) \<Rightarrow> (Inl (DiffxError (what @ '': '' @ message e) GIT_ERROR), s1)
      | (Inr v, s1) \<Rightarrow> (Inr v, s1))"

definition split_owner_repo :: "string \<Rightarrow> (string \<times> string) option" where
  \<comment> \<open>\<^verbatim>\<open>const [owner, repo] = ownerRepo.split("/"); if (!owner || !repo) ...\<close>:
      \<open>None\<close> when the check rejects\<close>
  "split_owner_repo ownerRepo' =
     (case split_char CHR ''/'' ownerRepo' of
        o' # r # rest \<Rightarrow> (if o' = [] \<or> r = [] then None else Some (o', r))
      | _ \<Rightarrow> None)"

definition invalid_owner_repo :: "string \<Rightarrow> exn" where
  "invalid_owner_repo ownerRepo' = DiffxError (''Invalid owner/repo: '' @ ownerRepo') INVALID_INPUT"

definition buildGitHubUrl :: "string \<Rightarrow> string \<Rightarrow> string" where
  "buildGitHubUrl o' r = ''https://github.com/'' @ o' @ ''/'' @ r @ ''.git''"

definition normalizeRef :: "string \<Rightarrow> string" where
  \<comment> \<open>\<^verbatim>\<open>ref.replace(/^refs\/(heads|tags)\//, "")\<close>\<close>
  "normalizeRef ref =
     (if startsWith ref ''refs/heads/'' then drop 11 ref
      else if startsWith ref ''refs/tags/'' then drop 10 ref
      else ref)"

subsection \<open>local-ref-resolver.ts\<close>

definition resolveLocalRefs :: "git_env \<Rightarrow> RefRange \<Rightarrow> ResolvedRefs io" where
  "resolveLocalRefs env rng s =
     (if type rng \<noteq> LocalRange
      then (Inl (DiffxError ''Invalid ref type for local resolver'' INVALID_INPUT), s)
      else (let l = normalizeRef (left rng);
                r = normalizeRef (right rng);
                (leftExists, s1) = refExistsAny env l s;
                (rightExists, s2) = refExistsAny env r s1
            in if \<not> leftExists
               then (Inl (DiffxError (''Left ref does not exist: '' @ left rng) INVALID_INPUT), s2)
               else if \<not> rightExists
               then (Inl (DiffxError (''Right ref does not exist: '' @ right rng) INVALID_INPUT), s2)
               else (Inr \<lparr> res_left = l, res_right = r, cleanup = None \<rparr>, s2)))"

subsection \<open>remote-ref-resolver.ts\<close>

definition remote_ref_of :: "string \<Rightarrow> string option" where
  \<comment> \<open>\<^verbatim>\<open>s.match(/^[^/]+\/[^@]+@(.+)$/)\<close>, capture 1\<close>
  "remote_ref_of v =
     (case rx_match False
             [Rep (NotChar CHR ''/'') 1 None, Lit CHR ''/'', Rep (NotChar CHR ''@'') 1 None,
              Lit CHR ''@'', Cap AnyChar 1 None] v [] of
        Some [ref] \<Rightarrow> Some ref
      | _ \<Rightarrow> None)"

definition resolveRemoteRefs :: "git_env \<Rightarrow> string \<Rightarrow> RefRange \<Rightarrow> ResolvedRefs io" where
  "resolveRemoteRefs env tempPrefix rng s =
     (if type rng \<noteq> RemoteRange \<or> falsy (ownerRepo rng)
      then (Inl (DiffxError ''Invalid ref type for remote resolver'' INVALID_INPUT), s)
      else (case split_owner_repo (the (ownerRepo rng)) of
              None \<Rightarrow> (Inl (invalid_owner_repo (the (ownerRepo rng))), s)
            | Some (o', r) \<Rightarrow>
                (case (remote_ref_of (left rng), remote_ref_of (right rng)) of
                   (Some leftRemoteRef, Some rightRemoteRef) \<Rightarrow>
                     (let remoteUrl = buildGitHubUrl o' r;
                          leftDestRef = tempPrefix @ ''/left'';
                          rightDestRef = tempPrefix @ ''/right''
                      in wrap_git_error ''Failed to fetch remote refs''
                           (\<lambda>s. case fetchFromUrl env remoteUrl
                                        [(leftRemoteRef, leftDestRef), (rightRemoteRef, rightDestRef)] 1 s of
                                   (Inl e, s1) \<Rightarrow> (Inl e, s1)
                                 | (Inr u, s1) \<Rightarrow>
                                     (Inr \<lparr> res_left = leftDestRef, res_right = rightDestRef,
                                            cleanup = Some [leftDestRef, rightDestRef] \<rparr>, s1)) s)
                 | _ \<Rightarrow> (Inl (DiffxError ''Invalid remote ref format'' INVALID_INPUT), s))))"

subsection \<open>git-url-resolver.ts\<close>

definition resolveGitUrlRefs :: "git_env \<Rightarrow> string \<Rightarrow> RefRange \<Rightarrow> ResolvedRefs io" where
  "resolveGitUrlRefs env tempPrefix rng s =
     (if type rng \<noteq> GitUrlRange \<or> falsy (leftGitUrl rng) \<or> falsy (rightGitUrl rng)
      then (Inl (DiffxError ''Invalid ref type for git URL resolver'' INVALID_INPUT), s)
      else (let leftUrl = the (leftGitUrl rng);
                rightUrl = the (rightGitUrl rng);
                leftDestRef = tempPrefix @ ''/left'';
                rightDestRef = tempPrefix @ ''/right''
            in wrap_git_error ''Failed to fetch refs from git URL''
                 (\<lambda>s. case (if leftUrl = rightUrl
                             then fetchFromUrl env leftUrl
                                    [(left rng, leftDestRef), (right rng, rightDestRef)] 1 s
                             else (case fetchFromUrl env leftUrl [(left rng, leftDestRef)] 1 s of
                                     (Inl e, s1) \<Rightarrow> (Inl e, s1)
                                   | (Inr u, s1) \<Rightarrow>
                                       fetchFromUrl env rightUrl [(right rng, rightDestRef)] 1 s1)) of
                         (Inl e, s2) \<Rightarrow> (Inl e, s2)
                       | (Inr u, s2) \<Rightarrow>
                           (Inr \<lparr> res_left = leftDestRef, res_right = rightDestRef,
                                  cleanup = Some [leftDestRef, rightDestRef] \<rparr>, s2)) s))"


subsection \<open>pr-url-resolver.ts\<close>

record PRResolvedRefs =
  headRef :: string
  mergeRef :: string
  cleanupRefs :: "string list"

definition fetchPRRefs :: "git_env \<Rightarrow> GitHubPRUrl \<Rightarrow> string \<Rightarrow> PRResolvedRefs io" where
  "fetchPRRefs env pr tempPrefix s =
     (let remoteUrl = buildGitHubUrl (owner pr) (repo pr);
          headRef' = tempPrefix @ ''/pull/'' @ show_nat (number pr) @ ''/head'';
          mergeRef' = tempPrefix @ ''/pull/'' @ show_nat (number pr) @ ''/merge''
      in case fetchFromUrl env remoteUrl
                [(''refs/pull/'' @ show_nat (number pr) @ ''/head'', headRef'),
                 (''refs/pull/'' @ show_nat (number pr) @ ''/merge'', mergeRef')] 2 s of
           (Inl e, s1) \<Rightarrow> (Inl e, s1)
         | (Inr u, s1) \<Rightarrow>
             (Inr \<lparr> headRef = headRef', mergeRef = mergeRef',
                    cleanupRefs = [headRef', mergeRef'] \<rparr>, s1))"

definition resolvePRRefs :: "git_env \<Rightarrow> string \<Rightarrow> RefRange \<Rightarrow> ResolvedRefs io" where
  "resolvePRRefs env tempPrefix rng s =
     (if falsy (ownerRepo rng) \<or> prNumber rng = None
      then (Inl (DiffxError ''Invalid PR ref'' INVALID_INPUT), s)
      else wrap_git_error ''Failed to fetch PR refs''
             (\<lambda>s. case split_owner_repo (the (ownerRepo rng)) of
                     None \<Rightarrow> (Inl (invalid_owner_repo (the (ownerRepo rng))), s)
                   | Some (o', r) \<Rightarrow>
                       (case fetchPRRefs env \<lparr> owner = o', repo = r, number = the (prNumber rng) \<rparr>
                               tempPrefix s of
                          (Inl e, s1) \<Rightarrow> (Inl e, s1)
                        | (Inr prRefs, s1) \<Rightarrow>
                            (Inr \<lparr> res_left = mergeRef prRefs @ ''^1'', res_right = mergeRef prRefs,
                                   cleanup = Some (cleanupRefs prRefs) \<rparr>, s1))) s)"

definition resolvePRRangeRefs :: "git_env \<Rightarrow> string \<Rightarrow> RefRange \<Rightarrow> ResolvedRefs io" where
  "resolvePRRangeRefs env tempPrefix rng s =
     (case (leftPr rng, rightPr rng) of
        (Some leftPr', Some rightPr') \<Rightarrow>
          wrap_git_error ''Failed to fetch PR range refs''
            (\<lambda>s. case fetchPRRefs env leftPr' (tempPrefix @ ''/left'') s of
                    (Inl e, s1) \<Rightarrow> (Inl e, s1)
                  | (Inr leftRefs, s1) \<Rightarrow>
                      (case fetchPRRefs env rightPr' (tempPrefix @ ''/right'') s1 of
                         (Inl e, s2) \<Rightarrow> (Inl e, s2)
                       | (Inr rightRefs, s2) \<Rightarrow>
                           (Inr \<lparr> res_left = headRef leftRefs, res_right = headRef rightRefs,
                                  cleanup = Some (cleanupRefs leftRefs @ cleanupRefs rightRefs) \<rparr>,
                            s2))) s
      | _ \<Rightarrow> (Inl (DiffxError ''Invalid PR range'' INVALID_INPUT), s))"

definition resolveGitHubCommitRefs :: "git_env \<Rightarrow> string \<Rightarrow> RefRange \<Rightarrow> ResolvedRefs io" where
  "resolveGitHubCommitRefs env tempPrefix rng s =
     (if falsy (ownerRepo rng) \<or> falsy (commitSha rng)
      then (Inl (DiffxError ''Invalid GitHub commit URL'' INVALID_INPUT), s)
      else wrap_git_error ''Failed to fetch commit refs''
             (\<lambda>s. case split_owner_repo (the (ownerRepo rng)) of
                     None \<Rightarrow> (Inl (invalid_owner_repo (the (ownerRepo rng))), s)
                   | Some (o', r) \<Rightarrow>
                       (let remoteUrl = buildGitHubUrl o' r;
                            commitRef = tempPrefix @ ''/commit/'' @ the (commitSha rng)
                        in case fetchFromUrl env remoteUrl [(the (commitSha rng), commitRef)] 2 s of
                             (Inl e, s1) \<Rightarrow> (Inl e, s1)
                           | (Inr u, s1) \<Rightarrow>
                               (Inr \<lparr> res_left = commitRef @ ''^'', res_right = commitRef,
                                      cleanup = Some [commitRef] \<rparr>, s1))) s)"

definition resolveGitHubPRChangesRefs :: "git_env \<Rightarrow> string \<Rightarrow> RefRange \<Rightarrow> ResolvedRefs io" where
  \<comment> \<open>\<^verbatim>\<open>!range.prNumber\<close> also rejects the number 0\<close>
  "resolveGitHubPRChangesRefs env tempPrefix rng s =
     (if falsy (ownerRepo rng) \<or> prNumber rng = None \<or> prNumber rng = Some 0
         \<or> falsy (leftCommitSha rng) \<or> falsy (rightCommitSha rng)
      then (Inl (DiffxError ''Invalid GitHub PR changes URL'' INVALID_INPUT), s)
      else wrap_git_error ''Failed to fetch PR changes refs''
             (\<lambda>s. case split_owner_repo (the (ownerRepo rng)) of
                     None \<Rightarrow> (Inl (invalid_owner_repo (the (ownerRepo rng))), s)
                   | Some (o', r) \<Rightarrow>
                       (let remoteUrl = buildGitHubUrl o' r;
                            leftCommitRef = tempPrefix @ ''/left-commit/'' @ the (leftCommitSha rng);
                            rightCommitRef = tempPrefix @ ''/right-commit/'' @ the (rightCommitSha rng)
                        in case fetchFromUrl env remoteUrl
                                  [(the (leftCommitSha rng), leftCommitRef),
                                   (the (rightCommitSha rng), rightCommitRef)] 2 s of
                             (Inl e, s1) \<Rightarrow> (Inl e, s1)
                           | (Inr u, s1) \<Rightarrow>
                               (Inr \<lparr> res_left = leftCommitRef, res_right = rightCommitRef,
                                      cleanup = Some [leftCommitRef, rightCommitRef] \<rparr>, s1))) s)"

definition isCommitSha :: "string \<Rightarrow> bool" where
  \<comment> \<open>\<^verbatim>\<open>/^[a-f0-9]{7,40}$/i.test(ref)\<close>\<close>
  "isCommitSha ref = (rx_match True [Rep Hex 7 (Some 40)] ref [] \<noteq> None)"

definition buildRefspec :: "string \<Rightarrow> string \<Rightarrow> (string \<times> string) list" where
  "buildRefspec ref targetRef =
     (if isCommitSha ref then [(ref, targetRef)]
      else [(''refs/heads/'' @ ref, targetRef), (''refs/tags/'' @ ref, targetRef)])"

fun fetchRef_loop ::
  "git_env \<Rightarrow> string \<Rightarrow> string \<Rightarrow> (string \<times> string) list \<Rightarrow> exn option \<Rightarrow> (string \<times> string) io" where
  \<comment> \<open>the \<^verbatim>\<open>for\<close> loop of \<^verbatim>\<open>fetchRef\<close> over the candidate refspecs, and the final
      \<^verbatim>\<open>throw fetchError ?? new Error(`Failed to fetch ref: ${ref}`)\<close>\<close>
  "fetchRef_loop env url ref [] fetchError s =
     (Inl (case fetchError of Some e \<Rightarrow> e | None \<Rightarrow> Error (''Failed to fetch ref: '' @ ref)), s)"
| "fetchRef_loop env url ref (refspec # rest) fetchError s =
     (case fetchFromUrl env url [refspec] 1 s of
        (Inr u, s1) \<Rightarrow> (Inr refspec, s1)
      | (Inl e, s1) \<Rightarrow> fetchRef_loop env url ref rest (Some e) s1)"

definition fetchRef :: "git_env \<Rightarrow> string \<Rightarrow> string \<Rightarrow> string \<Rightarrow> (string \<times> string) io" where
  "fetchRef env url ref targetRef s = fetchRef_loop env url ref (buildRefspec ref targetRef) None s"

definition getMergeBase :: "git_env \<Rightarrow> string \<Rightarrow> string \<Rightarrow> git_state \<Rightarrow> string option \<times> git_state" where
  \<comment> \<open>\<^verbatim>\<open>try { const b = (await mergeBase(l, r)).trim(); return b.length > 0 ? b : null }
      catch { return null }\<close>\<close>
  "getMergeBase env l r s =
     (case mergeBase env l r s of
        (Inl e, s1) \<Rightarrow> (None, s1)
      | (Inr out, s1) \<Rightarrow> (if length (trim out) > 0 then Some (trim out) else None, s1))"

text \<open>
  The \<^verbatim>\<open>try\<close> block of \<^verbatim>\<open>resolveGitHubCompareRefs\<close> in two parts, with the names it binds
  (\<^verbatim>\<open>leftUrl\<close>, \<^verbatim>\<open>rightUrl\<close>, the temp refs \<^verbatim>\<open>leftRef\<close> and \<^verbatim>\<open>rightRef\<close>, the refspecs that
  were fetched) as parameters: first the merge base with its deepening fallback and the
  result, then the two initial fetches in front of it.
\<close>

definition compare_result :: "string \<Rightarrow> string \<Rightarrow> string option \<Rightarrow> ResolvedRefs io" where
  \<comment> \<open>\<^verbatim>\<open>if (!mergeBase) throw new Error(...); return { left: mergeBase, right: rightRef, cleanup }\<close>\<close>
  "compare_result leftRef' rightRef' mergeBase' s =
     (case mergeBase' of
        None \<Rightarrow> (Inl (Error ''Failed to determine merge base for compare refs''), s)
      | Some b \<Rightarrow>
          (Inr \<lparr> res_left = b, res_right = rightRef', cleanup = Some [leftRef', rightRef'] \<rparr>, s))"

definition compare_merge_base ::
  "git_env \<Rightarrow> string \<Rightarrow> string \<Rightarrow> string \<Rightarrow> string \<Rightarrow> string \<times> string \<Rightarrow> string \<times> string
     \<Rightarrow> ResolvedRefs io" where
  "compare_merge_base env leftUrl rightUrl leftRef' rightRef' leftRefspec rightRefspec s =
     (case getMergeBase env leftRef' rightRef' s of
        (Some b, s1) \<Rightarrow> compare_result leftRef' rightRef' (Some b) s1
      | (None, s1) \<Rightarrow>
          (case fetchFromUrl env leftUrl [leftRefspec] 200 s1 of
             (Inl e, s2) \<Rightarrow> (Inl e, s2)
           | (Inr u, s2) \<Rightarrow>
               (case fetchFromUrl env rightUrl [rightRefspec] 200 s2 of
                  (Inl e, s3) \<Rightarrow> (Inl e, s3)
                | (Inr u, s3) \<Rightarrow>
                    (case getMergeBase env leftRef' rightRef' s3 of
                       (mergeBase', s4) \<Rightarrow> compare_result leftRef' rightRef' mergeBase' s4))))"

definition compare_fetch_both ::
  "git_env \<Rightarrow> string \<Rightarrow> string \<Rightarrow> string \<Rightarrow> string \<Rightarrow> string \<Rightarrow> string \<Rightarrow> ResolvedRefs io" where
  "compare_fetch_both env leftUrl rightUrl lref rref leftRef' rightRef' s =
     (case fetchRef env leftUrl lref leftRef' s of
        (Inl e, s1) \<Rightarrow> (Inl e, s1)
      | (Inr leftRefspec, s1) \<Rightarrow>
          (case fetchRef env rightUrl rref rightRef' s1 of
             (Inl e, s2) \<Rightarrow> (Inl e, s2)
           | (Inr rightRefspec, s2) \<Rightarrow>
               compare_merge_base env leftUrl rightUrl leftRef' rightRef'
                 leftRefspec rightRefspec s2))"

definition resolveGitHubCompareRefs :: "git_env \<Rightarrow> string \<Rightarrow> RefRange \<Rightarrow> ResolvedRefs io" where
  "resolveGitHubCompareRefs env tempPrefix rng s =
     (if falsy (ownerRepo rng) \<or> falsy (leftRef rng) \<or> falsy (rightRef rng)
      then (Inl (DiffxError ''Invalid GitHub compare URL'' INVALID_INPUT), s)
      else wrap_git_error ''Failed to fetch compare refs''
        (\<lambda>s. case split_owner_repo (the (ownerRepo rng)) of
           None \<Rightarrow> (Inl (invalid_owner_repo (the (ownerRepo rng))), s)
         | Some (o', r) \<Rightarrow>
             compare_fetch_both env
               (buildGitHubUrl o' r)
               (buildGitHubUrl (or_default (rightOwner rng) o') (or_default (rightRepo rng) r))
               (the (leftRef rng)) (the (rightRef rng))
               (tempPrefix @ ''/left/'' @ the (leftRef rng))
               (tempPrefix @ ''/right/'' @ the (rightRef rng)) s) s)"

subsection \<open>gitlab-mr-resolver.ts\<close>

definition fetchMRRefs :: "git_env \<Rightarrow> RefRange \<Rightarrow> string \<Rightarrow> PRResolvedRefs io" where
  "fetchMRRefs env rng tempPrefix s =
     (if falsy (ownerRepo rng) \<or> prNumber rng = None
      then (Inl (DiffxError ''Invalid GitLab MR ref'' INVALID_INPUT), s)
      else (case split_owner_repo (the (ownerRepo rng)) of
              None \<Rightarrow> (Inl (invalid_owner_repo (the (ownerRepo rng))), s)
            | Some (o', r) \<Rightarrow>
                (let remoteUrl = ''git@gitlab.com:'' @ o' @ ''/'' @ r @ ''.git'';
                     mrNumber = the (prNumber rng);
                     headRef' = tempPrefix @ ''/merge-requests/'' @ show_nat mrNumber @ ''/head'';
                     mergeRef' = tempPrefix @ ''/merge-requests/'' @ show_nat mrNumber @ ''/merge''
                 in case fetchFromUrl env remoteUrl
                           [(''refs/merge-requests/'' @ show_nat mrNumber @ ''/head'', headRef'),
                            (''refs/merge-requests/'' @ show_nat mrNumber @ ''/merge'', mergeRef')] 2 s of
                      (Inl e, s1) \<Rightarrow> (Inl e, s1)
                    | (Inr u, s1) \<Rightarrow>
                        (Inr \<lparr> headRef = headRef', mergeRef = mergeRef',
                               cleanupRefs = [headRef', mergeRef'] \<rparr>, s1))))"

definition resolveGitLabMRRefs :: "git_env \<Rightarrow> string \<Rightarrow> RefRange \<Rightarrow> ResolvedRefs io" where
  "resolveGitLabMRRefs env tempPrefix rng s =
     wrap_git_error ''Failed to fetch GitLab MR refs''
       (\<lambda>s. case fetchMRRefs env rng tempPrefix s of
               (Inl e, s1) \<Rightarrow> (Inl e, s1)
             | (Inr mrRefs, s1) \<Rightarrow>
                 (Inr \<lparr> res_left = mergeRef mrRefs @ ''^1'', res_right = mergeRef mrRefs,
                        cleanup = Some (cleanupRefs mrRefs) \<rparr>, s1)) s"

subsection \<open>ref-resolver.ts: dispatch on the range type\<close>

fun resolversByRefRangeType :: "RefType \<Rightarrow> git_env \<Rightarrow> string \<Rightarrow> RefRange \<Rightarrow> ResolvedRefs io" where
  "resolversByRefRangeType LocalRange = (\<lambda>env tempPrefix. resolveLocalRefs env)"
| "resolversByRefRangeType RemoteRange = resolveRemoteRefs"
| "resolversByRefRangeType PrRef = resolvePRRefs"
| "resolversByRefRangeType GithubUrl = resolvePRRefs"
| "resolversByRefRangeType PrRange = resolvePRRangeRefs"
| "resolversByRefRangeType GitUrlRange = resolveGitUrlRefs"
| "resolversByRefRangeType GithubCommitUrl = resolveGitHubCommitRefs"
| "resolversByRefRangeType GithubPrChangesUrl = resolveGitHubPRChangesRefs"
| "resolversByRefRangeType GithubCompareUrl = resolveGitHubCompareRefs"
| "resolversByRefRangeType GitlabMrRef = resolveGitLabMRRefs"

definition resolveRefs :: "git_env \<Rightarrow> string \<Rightarrow> RefRange \<Rightarrow> ResolvedRefs io" where
  "resolveRefs env tempPrefix rng = resolversByRefRangeType (type rng) env tempPrefix rng"

section \<open>Constants used in the statements\<close>

definition tag_order :: "RefType list" where
  \<comment> \<open>the tag each matcher of \<open>matcher_order\<close> gives its result, in order\<close>
  "tag_order =
     [PrRange, GitUrlRange, GithubCompareUrl, GithubPrChangesUrl, GithubUrl, GithubCommitUrl,
      GitUrlRange, GitUrlRange, PrRef, GitlabMrRef, RemoteRange, LocalRange]"

definition format_lines :: "string list" where
  \<comment> \<open>the entries of the list of supported formats in the parser's error message\<close>
  "format_lines =
     [ ''Local refs: main..feature, abc123..def456'',
       ''Remote refs: owner/repo@main..owner/repo@feature'',
       ''Git URL: git@github.com:owner/repo.git@main..feature'',
       ''Git URL (HTTPS): https://github.com/owner/repo.git@main..feature'',
       ''GitHub refs: github:owner/repo@main..feature'',
       ''GitHub PR ref: github:owner/repo#123'',
       ''GitHub PR range: github:owner/repo#123..github:owner/repo#456'',
       ''GitHub PR URL: https://github.com/owner/repo/pull/123'',
       ''PR URL range: https://github.com/owner/repo/pull/123..https://github.com/owner/repo/pull/456'',
       ''GitHub commit URL: https://github.com/owner/repo/commit/abc123'',
       ''GitHub PR changes URL: https://github.com/owner/repo/pull/123/changes/abc123..def456'',
       ''GitHub compare URL: https://github.com/owner/repo/compare/main...feature'',
       ''Cross-fork compare: https://github.com/owner/repo/compare/main...other:repo:feature'',
       ''GitLab refs: gitlab:owner/repo@main..feature'',
       ''GitLab MR ref: gitlab:owner/repo!123'' ]"

definition accepted_examples :: "(string \<times> string) list" where
  \<comment> \<open>for each matcher of \<open>matcher_order\<close>, in order, an entry of the list (its label and
      its example) that the matcher accepts\<close>
  "accepted_examples =
     [ (''PR URL range: '', ''https://github.com/owner/repo/pull/123..https://github.com/owner/repo/pull/456''),
       (''Git URL: '', ''git@github.com:owner/repo.git@main..feature''),
       (''GitHub compare URL: '', ''https://github.com/owner/repo/compare/main...feature''),
       (''GitHub PR changes URL: '', ''https://github.com/owner/repo/pull/123/changes/abc123..def456''),
       (''GitHub PR URL: '', ''https://github.com/owner/repo/pull/123''),
       (''GitHub commit URL: '', ''https://github.com/owner/repo/commit/abc123''),
       (''GitHub refs: '', ''github:owner/repo@main..feature''),
       (''GitLab refs: '', ''gitlab:owner/repo@main..feature''),
       (''GitHub PR ref: '', ''github:owner/repo#123''),
       (''GitLab MR ref: '', ''gitlab:owner/repo!123''),
       (''Remote refs: '', ''owner/repo@main..owner/repo@feature''),
       (''Local refs: '', ''main..feature'') ]"

definition deletions :: "git_call list \<Rightarrow> string list" where
  \<comment> \<open>the refs that \<^verbatim>\<open>update-ref -d\<close> was called on\<close>
  "deletions cs = concat (map (\<lambda>c. case c of UpdateRefDelete r \<Rightarrow> [r] | _ \<Rightarrow> []) cs)"

definition cleanup_refs :: "ResolvedRefs \<Rightarrow> string list" where
  \<comment> \<open>the refs that the cleanup callback deletes (none when there is no callback)\<close>
  "cleanup_refs r = (case cleanup r of None \<Rightarrow> [] | Some rs \<Rightarrow> rs)"

definition initial_state :: git_state where
  "initial_state = \<lparr> calls = [], refs = {} \<rparr>"

definition env_ok :: git_env where
  \<comment> \<open>every command succeeds; \<^verbatim>\<open>merge-base\<close> prints a commit id\<close>
  "env_ok =
     \<lparr> fetch_error = (\<lambda>s url refspecs depth. None),
       merge_base_result = (\<lambda>s l r. Inr (''0123abc'' @ nl)),
       update_ref_error = (\<lambda>s ref. None),
       rev_parse_ok = (\<lambda>s ref. True) \<rparr>"

definition env_second_fetch_fails :: git_env where
  \<comment> \<open>the first fetch succeeds, every later one fails\<close>
  "env_second_fetch_fails =
     env_ok \<lparr> fetch_error := (\<lambda>s url refspecs depth.
                 if calls s = [] then None else Some ''network down'') \<rparr>"



definition env_locked :: "string \<Rightarrow> git_env" where
  \<comment> \<open>deleting the given ref always fails\<close>
  "env_locked ref =
     env_ok \<lparr> update_ref_error := (\<lambda>s r. if r = ref then Some ''cannot lock ref'' else None) \<rparr>"

definition grows :: "string set \<Rightarrow> git_state \<Rightarrow> git_state \<Rightarrow> bool" where
  \<comment> \<open>from \<open>s\<close> to \<open>s'\<close> no ref was removed, no ref deletion was called, and every new ref is
      in \<open>D\<close>\<close>
  "grows D s s' \<longleftrightarrow>
     refs s \<subseteq> refs s' \<and> refs s' \<subseteq> refs s \<union> D \<and> deletions (calls s') = deletions (calls s)"



definition decimal_text :: "nat \<Rightarrow> string \<Rightarrow> bool" where
  \<comment> \<open>\<open>ds\<close> is the decimal numeral of \<open>n\<close>: digits only, no leading zero, of value \<open>n\<close>\<close>
  "decimal_text n ds \<longleftrightarrow>
     ds \<noteq> [] \<and> list_all (\<lambda>c. c \<in> set ''0123456789'') ds \<and> (hd ds = CHR ''0'' \<longrightarrow> ds = ''0'')
     \<and> foldl (\<lambda>a c. 10 * a + (of_char c - 48)) 0 ds = n"
section \<open>Properties of the string primitives and of the parser\<close>

lemma startsWith_append: "startsWith (p @ r) p"
  by (induction p) auto

lemma startsWith_iff: "startsWith s p \<longleftrightarrow> (\<exists>r. s = p @ r)"
proof (induction s p rule: startsWith.induct)
  case (1 s) then show ?case by simp
next
  case (2 p ps) then show ?case by simp
next
  case (3 c cs p ps) then show ?case by auto
qed

lemma indexOf_Some_decomp:
  "indexOf s sub = Some i \<Longrightarrow> \<exists>b. s = take i s @ sub @ b \<and> i \<le> length s"
proof (induction s arbitrary: i)
  case Nil
  then show ?case by (auto split: if_splits)
next
  case (Cons c cs)
  show ?case
  proof (cases "startsWith (c # cs) sub")
    case True
    with Cons.prems have "i = 0" by simp
    with True show ?thesis by (auto simp: startsWith_iff)
  next
    case False
    with Cons.prems obtain j where j: "indexOf cs sub = Some j" "i = Suc j" by auto
    from Cons.IH[OF j(1)] obtain b where "cs = take j cs @ sub @ b" "j \<le> length cs" by blast
    with j(2) show ?thesis by auto
  qed
qed

lemma indexOf_append: "indexOf (a @ sub @ b) sub \<noteq> None"
proof (induction a)
  case Nil
  have "startsWith (sub @ b) sub" by (rule startsWith_append)
  then show ?case by (cases "sub @ b") auto
next
  case (Cons c a)
  then show ?case by auto
qed

lemma str_includes_iff: "str_includes s sub \<longleftrightarrow> (\<exists>a b. s = a @ sub @ b)"
proof
  assume "str_includes s sub"
  then obtain i where "indexOf s sub = Some i" by (auto simp: str_includes_def)
  from indexOf_Some_decomp[OF this] show "\<exists>a b. s = a @ sub @ b" by blast
next
  assume "\<exists>a b. s = a @ sub @ b"
  then show "str_includes s sub" using indexOf_append by (auto simp: str_includes_def)
qed

lemma parseRangeInput_cascade:
  "parseRangeInput input =
     (case first_success matcher_order input of Some r \<Rightarrow> Inr r | None \<Rightarrow> Inl (invalid_range input))"
  unfolding parseRangeInput_def matcher_order_def
  by (simp split: option.splits)


lemma supported_formats_lines:
  "supported_formats =
     nl @ nl @ ''Supported formats:'' @ concat (map (\<lambda>l. nl @ ''  - '' @ l) format_lines)"
  by (simp add: supported_formats_def format_lines_def)

lemma line_in_supported_formats:
  assumes "l \<in> set format_lines"
  shows "\<exists>a b. supported_formats = a @ l @ b"
proof -
  from assms obtain xs ys where fl: "format_lines = xs @ l # ys"
    by (auto dest: split_list)
  have "supported_formats =
      (nl @ nl @ ''Supported formats:'' @ concat (map (\<lambda>l. nl @ ''  - '' @ l) xs) @ nl @ ''  - '')
       @ l @ concat (map (\<lambda>l. nl @ ''  - '' @ l) ys)"
    by (simp add: supported_formats_lines fl)
  then show ?thesis by blast
qed

lemma example_in_supported_formats:
  assumes "e \<in> set accepted_examples"
  shows "str_includes supported_formats (fst e @ snd e)"
proof -
  have "\<forall>e \<in> set accepted_examples. \<exists>l \<in> set format_lines. \<exists>rest. l = (fst e @ snd e) @ rest"
    unfolding accepted_examples_def format_lines_def by simp
  with assms obtain l rest where "l \<in> set format_lines" "l = (fst e @ snd e) @ rest" by blast
  with line_in_supported_formats[of l] obtain a b
    where "supported_formats = a @ (fst e @ snd e) @ (rest @ b)"
    by auto
  then show ?thesis unfolding str_includes_iff by blast
qed

lemma first_success_None: "(\<forall>m \<in> set ms. m x = None) \<Longrightarrow> first_success ms x = None"
  by (induction ms) auto

lemma first_success_None_iff: "first_success ms x = None \<longleftrightarrow> (\<forall>m \<in> set ms. m x = None)"
  by (induction ms) (auto split: option.splits)

section \<open>Effects of the git commands\<close>

lemma fetchFromUrl_effect:
  "fetchFromUrl env url refspecs depth s =
     (case fetch_error env s url (map refspec_text refspecs) depth of
        Some msg \<Rightarrow>
          (Inl (Error msg), s \<lparr> calls := calls s @ [Fetch url (map refspec_text refspecs) depth] \<rparr>)
      | None \<Rightarrow>
          (Inr (), \<lparr> calls = calls s @ [Fetch url (map refspec_text refspecs) depth],
                     refs = refs s \<union> snd ` set refspecs \<rparr>))"
  by (simp add: fetchFromUrl_def logged_def Let_def split: option.splits)


lemma fetchFromUrl_refs:
  "refs (snd (fetchFromUrl env url refspecs depth s)) =
     (if fetch_error env s url (map refspec_text refspecs) depth = None
      then refs s \<union> snd ` set refspecs else refs s)"
  by (simp add: fetchFromUrl_effect split: option.splits)


lemma deletions_append [simp]: "deletions (xs @ ys) = deletions xs @ deletions ys"
  by (simp add: deletions_def)

lemma deletions_simps [simp]:
  "deletions [] = []"
  "deletions (Fetch u rs d # cs) = deletions cs"
  "deletions (MergeBase l r # cs) = deletions cs"
  "deletions (RevParseVerify x # cs) = deletions cs"
  "deletions (UpdateRefDelete x # cs) = x # deletions cs"
  by (simp_all add: deletions_def)

lemma fetchPRRefs_effect:
  "fetchPRRefs env pr tempPrefix s =
     (let url = buildGitHubUrl (owner pr) (repo pr);
          n = show_nat (number pr);
          h = tempPrefix @ ''/pull/'' @ n @ ''/head'';
          m = tempPrefix @ ''/pull/'' @ n @ ''/merge'';
          specs = [''refs/pull/'' @ n @ ''/head:'' @ h, ''refs/pull/'' @ n @ ''/merge:'' @ m];
          s1 = s \<lparr> calls := calls s @ [Fetch url specs 2] \<rparr>
      in case fetch_error env s url specs 2 of
           Some msg \<Rightarrow> (Inl (Error msg), s1)
         | None \<Rightarrow> (Inr \<lparr> headRef = h, mergeRef = m, cleanupRefs = [h, m] \<rparr>,
                     s1 \<lparr> refs := refs s \<union> {h, m} \<rparr>))"
  by (simp add: fetchPRRefs_def fetchFromUrl_effect refspec_text_def Let_def split: option.splits)

lemma resolvePRRefs_effect:
  assumes "prNumber rng = Some N" "ownerRepo rng = Some ownerRepo'"
      and "split_owner_repo ownerRepo' = Some (o', r)"
  shows "resolvePRRefs env tempPrefix rng s =
     (let url = ''https://github.com/'' @ o' @ ''/'' @ r @ ''.git'';
          n = show_nat N;
          h = tempPrefix @ ''/pull/'' @ n @ ''/head'';
          m = tempPrefix @ ''/pull/'' @ n @ ''/merge'';
          specs = [''refs/pull/'' @ n @ ''/head:'' @ h, ''refs/pull/'' @ n @ ''/merge:'' @ m];
          s1 = s \<lparr> calls := calls s @ [Fetch url specs 2] \<rparr>
      in case fetch_error env s url specs 2 of
           Some msg \<Rightarrow> (Inl (DiffxError (''Failed to fetch PR refs: '' @ msg) GIT_ERROR), s1)
         | None \<Rightarrow> (Inr \<lparr> res_left = m @ ''^1'', res_right = m, cleanup = Some [h, m] \<rparr>,
                     s1 \<lparr> refs := refs s \<union> {h, m} \<rparr>))"
proof -
  from assms(2,3) have "ownerRepo' \<noteq> []"
    by (auto simp: split_owner_repo_def)
  with assms show ?thesis
    by (simp add: resolvePRRefs_def wrap_git_error_def falsy_def fetchPRRefs_effect
        buildGitHubUrl_def Let_def split: option.splits)
qed

lemma deleteRef_effect:
  "deleteRef env ref s =
     (Inr (), \<lparr> calls = calls s @ [UpdateRefDelete ref],
                refs = (if update_ref_error env s ref = None then refs s - {ref} else refs s) \<rparr>)"
  by (simp add: deleteRef_def updateRefDelete_def logged_def Let_def split: option.splits)

lemma deleteRef_calls: "calls (snd (deleteRef env ref s)) = calls s @ [UpdateRefDelete ref]"
  by (simp add: deleteRef_effect)

lemma deleteRef_refs:
  "refs (snd (deleteRef env ref s)) =
     (if update_ref_error env s ref = None then refs s - {ref} else refs s)"
  by (simp add: deleteRef_effect)

lemma deleteRefs_Nil: "deleteRefs env [] s = (Inr (), s)"
  by (simp add: deleteRefs_def)

lemma deleteRefs_Cons: "deleteRefs env (r # rs) s = deleteRefs env rs (snd (deleteRef env r s))"
proof -
  obtain s1 where "deleteRef env r s = (Inr (), s1)"
    using deleteRef_effect by blast
  then show ?thesis by (simp add: deleteRefs_def)
qed

lemma deleteRefs_never_raises: "fst (deleteRefs env rs s) = Inr ()"
  by (induction rs arbitrary: s) (simp_all add: deleteRefs_Nil deleteRefs_Cons)

lemma deleteRefs_calls: "calls (snd (deleteRefs env rs s)) = calls s @ map UpdateRefDelete rs"
  by (induction rs arbitrary: s) (simp_all add: deleteRefs_Nil deleteRefs_Cons deleteRef_calls)

lemma deleteRefs_refs_subset: "refs (snd (deleteRefs env rs s)) \<subseteq> refs s"
proof (induction rs arbitrary: s)
  case Nil
  show ?case by (simp add: deleteRefs_Nil)
next
  case (Cons r rs)
  have "refs (snd (deleteRefs env rs (snd (deleteRef env r s)))) \<subseteq> refs (snd (deleteRef env r s))"
    by (rule Cons.IH)
  also have "\<dots> \<subseteq> refs s"
    by (simp add: deleteRef_refs)
  finally show ?case by (simp add: deleteRefs_Cons)
qed

lemma deleteRefs_refs_keeps: "refs s - set rs \<subseteq> refs (snd (deleteRefs env rs s))"
proof (induction rs arbitrary: s)
  case Nil
  show ?case by (simp add: deleteRefs_Nil)
next
  case (Cons r rs)
  have "refs (snd (deleteRef env r s)) - set rs
          \<subseteq> refs (snd (deleteRefs env rs (snd (deleteRef env r s))))"
    by (rule Cons.IH)
  moreover have "refs s - set (r # rs) \<subseteq> refs (snd (deleteRef env r s)) - set rs"
    by (auto simp: deleteRef_refs)
  ultimately show ?case unfolding deleteRefs_Cons by blast
qed

lemma deleteRefs_refs_all_deleted:
  assumes "\<forall>st r. update_ref_error env st r = None"
  shows "refs (snd (deleteRefs env rs s)) = refs s - set rs"
  using assms
  by (induction rs arbitrary: s) (auto simp: deleteRefs_Nil deleteRefs_Cons deleteRef_refs)

lemma deleteRefs_absent_noop:
  assumes "set rs \<inter> refs s = {}"
  shows "refs (snd (deleteRefs env rs s)) = refs s"
  using deleteRefs_refs_subset[of env rs s] deleteRefs_refs_keeps[of s rs env] assms by blast

section \<open>What a resolver does to the ref database\<close>

lemma grows_refl: "grows D s s"
  by (simp add: grows_def)

lemma grows_trans: "grows D s s1 \<Longrightarrow> grows D' s1 s2 \<Longrightarrow> grows (D \<union> D') s s2"
  by (auto simp: grows_def)

lemma grows_mono: "grows D s s' \<Longrightarrow> D \<subseteq> D' \<Longrightarrow> grows D' s s'"
  by (auto simp: grows_def)

lemma grows_fetchFromUrl:
  "fetchFromUrl env url refspecs depth s = (res, s') \<Longrightarrow> grows (snd ` set refspecs) s s'"
  by (auto simp: fetchFromUrl_effect grows_def split: option.splits)

lemma grows_getMergeBase: "getMergeBase env l r s = (b, s') \<Longrightarrow> grows {} s s'"
  by (auto simp: getMergeBase_def mergeBase_def logged_def grows_def Let_def split: sum.splits)

lemma grows_refExistsAny: "refExistsAny env ref s = (b, s') \<Longrightarrow> grows {} s s'"
  by (auto simp: refExistsAny_def logged_def grows_def)

lemma grows_fetchRef_loop:
  "\<forall>sp \<in> set specs. snd sp = t \<Longrightarrow> fetchRef_loop env url ref specs err s = (res, s')
     \<Longrightarrow> grows {t} s s'"
proof (induction specs arbitrary: err s)
  case Nil
  then show ?case by (simp add: grows_refl)
next
  case (Cons sp specs)
  obtain r1 s1 where f: "fetchFromUrl env url [sp] 1 s = (r1, s1)"
    by (cases "fetchFromUrl env url [sp] 1 s")
  from grows_fetchFromUrl[OF f] Cons.prems(1) have g1: "grows {t} s s1"
    by simp
  show ?case
  proof (cases r1)
    case (Inr u)
    with f Cons.prems(2) have "s' = s1" by simp
    with g1 show ?thesis by simp
  next
    case (Inl e)
    with f Cons.prems(2) have "fetchRef_loop env url ref specs (Some e) s1 = (res, s')"
      by simp
    from Cons.IH[OF _ this] Cons.prems(1) have "grows {t} s1 s'" by simp
    from grows_trans[OF g1 this] show ?thesis by simp
  qed
qed

lemma grows_fetchRef: "fetchRef env url ref t s = (res, s') \<Longrightarrow> grows {t} s s'"
  unfolding fetchRef_def
  by (rule grows_fetchRef_loop[where specs="buildRefspec ref t"]) (auto simp: buildRefspec_def)


lemma summary_local:
  "resolveLocalRefs env rng s = (res, s') \<Longrightarrow> grows {} s s'"
  by (auto simp: resolveLocalRefs_def refExistsAny_def logged_def grows_def Let_def
      split: if_splits)

lemma summary_remote:
  "resolveRemoteRefs env p rng s = (res, s') \<Longrightarrow>
     grows UNIV s s' \<and> (\<forall>r. res = Inr r \<longrightarrow> cleanup r \<noteq> None \<and> grows (set (cleanup_refs r)) s s')"
  by (auto simp: resolveRemoteRefs_def wrap_git_error_def fetchFromUrl_effect grows_def
        cleanup_refs_def Let_def
      split: if_splits option.splits prod.splits)

lemma summary_git_url:
  "resolveGitUrlRefs env p rng s = (res, s') \<Longrightarrow>
     grows UNIV s s' \<and> (\<forall>r. res = Inr r \<longrightarrow> cleanup r \<noteq> None \<and> grows (set (cleanup_refs r)) s s')"
  by (auto simp: resolveGitUrlRefs_def wrap_git_error_def fetchFromUrl_effect grows_def
        cleanup_refs_def Let_def
      split: if_splits option.splits prod.splits)

lemma summary_pr:
  "resolvePRRefs env p rng s = (res, s') \<Longrightarrow>
     grows UNIV s s' \<and> (\<forall>r. res = Inr r \<longrightarrow> cleanup r \<noteq> None \<and> grows (set (cleanup_refs r)) s s')"
  by (auto simp: resolvePRRefs_def wrap_git_error_def fetchPRRefs_effect grows_def
        cleanup_refs_def Let_def
      split: if_splits option.splits prod.splits)

lemma summary_pr_range:
  "resolvePRRangeRefs env p rng s = (res, s') \<Longrightarrow>
     grows UNIV s s' \<and> (\<forall>r. res = Inr r \<longrightarrow> cleanup r \<noteq> None \<and> grows (set (cleanup_refs r)) s s')"
  by (auto simp: resolvePRRangeRefs_def wrap_git_error_def fetchPRRefs_effect grows_def
        cleanup_refs_def Let_def
      split: if_splits option.splits prod.splits)

lemma summary_commit:
  "resolveGitHubCommitRefs env p rng s = (res, s') \<Longrightarrow>
     grows UNIV s s' \<and> (\<forall>r. res = Inr r \<longrightarrow> cleanup r \<noteq> None \<and> grows (set (cleanup_refs r)) s s')"
  by (auto simp: resolveGitHubCommitRefs_def wrap_git_error_def fetchFromUrl_effect grows_def
        cleanup_refs_def Let_def
      split: if_splits option.splits prod.splits)

lemma summary_pr_changes:
  "resolveGitHubPRChangesRefs env p rng s = (res, s') \<Longrightarrow>
     grows UNIV s s' \<and> (\<forall>r. res = Inr r \<longrightarrow> cleanup r \<noteq> None \<and> grows (set (cleanup_refs r)) s s')"
  by (auto simp: resolveGitHubPRChangesRefs_def wrap_git_error_def fetchFromUrl_effect grows_def
        cleanup_refs_def Let_def
      split: if_splits option.splits prod.splits)

lemma summary_mr:
  "resolveGitLabMRRefs env p rng s = (res, s') \<Longrightarrow>
     grows UNIV s s' \<and> (\<forall>r. res = Inr r \<longrightarrow> cleanup r \<noteq> None \<and> grows (set (cleanup_refs r)) s s')"
  by (auto simp: resolveGitLabMRRefs_def fetchMRRefs_def wrap_git_error_def fetchFromUrl_effect
        grows_def cleanup_refs_def Let_def
      split: if_splits option.splits prod.splits)

lemma fetchRef_loop_result:
  "fetchRef_loop env url ref specs err s = (Inr sp, s') \<Longrightarrow> sp \<in> set specs"
  by (induction specs arbitrary: err s) (auto split: prod.splits sum.splits)

lemma fetchRef_result: "fetchRef env url ref t s = (Inr sp, s') \<Longrightarrow> snd sp = t"
  unfolding fetchRef_def
  by (drule fetchRef_loop_result) (auto simp: buildRefspec_def split: if_splits)

lemma summary_compare_merge_base:
  assumes "compare_merge_base env lu ru l r (a, l) (b, r) s = (res, s')"
  shows "grows {l, r} s s' \<and> (\<forall>x. res = Inr x \<longrightarrow> cleanup x = Some [l, r])"
  using assms
  unfolding compare_merge_base_def compare_result_def
  apply (auto simp: grows_def
      split: option.splits prod.splits sum.splits
      dest!: grows_getMergeBase grows_fetchFromUrl)
             apply blast+
  done

lemma summary_compare_fetch_both:
  assumes "compare_fetch_both env lu ru lref rref l r s = (res, s')"
  shows "grows {l, r} s s' \<and> (\<forall>x. res = Inr x \<longrightarrow> cleanup x = Some [l, r])"
proof -
  obtain r1 s1 where f1: "fetchRef env lu lref l s = (r1, s1)"
    by (cases "fetchRef env lu lref l s")
  note g1 = grows_fetchRef[OF f1]
  show ?thesis
  proof (cases r1)
    case (Inl e)
    with assms f1 have "s' = s1" "res = Inl e" by (auto simp: compare_fetch_both_def)
    with g1 show ?thesis by (auto intro: grows_mono)
  next
    case (Inr lspec)
    with f1 have sl: "snd lspec = l" by (auto dest: fetchRef_result)
    obtain r2 s2 where f2: "fetchRef env ru rref r s1 = (r2, s2)"
      by (cases "fetchRef env ru rref r s1")
    note g2 = grows_trans[OF g1 grows_fetchRef[OF f2]]
    show ?thesis
    proof (cases r2)
      case (Inl e)
      with assms f1 f2 Inr have "s' = s2" "res = Inl e" by (auto simp: compare_fetch_both_def)
      with g2 show ?thesis by (auto intro: grows_mono)
    next
      case rs: (Inr rspec)
      with f2 have sr: "snd rspec = r" by (auto dest: fetchRef_result)
      from assms f1 f2 Inr rs
      have "compare_merge_base env lu ru l r lspec rspec s2 = (res, s')"
        by (simp add: compare_fetch_both_def)
      with sl sr have "compare_merge_base env lu ru l r (fst lspec, l) (fst rspec, r) s2 = (res, s')"
        by (metis prod.collapse)
      from summary_compare_merge_base[OF this] grows_trans[OF g2, of "{l, r}" s']
      show ?thesis by (auto intro: grows_mono)
    qed
  qed
qed

lemma summary_compare:
  "resolveGitHubCompareRefs env p rng s = (res, s') \<Longrightarrow>
     grows UNIV s s' \<and> (\<forall>r. res = Inr r \<longrightarrow> cleanup r \<noteq> None \<and> grows (set (cleanup_refs r)) s s')"
  unfolding resolveGitHubCompareRefs_def wrap_git_error_def
  by (auto simp: cleanup_refs_def grows_refl
      split: if_splits option.splits prod.splits sum.splits
      dest!: summary_compare_fetch_both intro: grows_mono)







lemma summary_resolveRefs:
  assumes "resolveRefs env p rng s = (res, s')"
  shows "grows UNIV s s'
       \<and> (\<forall>r. res = Inr r \<longrightarrow>
             grows (set (cleanup_refs r)) s s' \<and> (type rng \<noteq> LocalRange \<longrightarrow> cleanup r \<noteq> None))"
proof (cases "type rng")
  case LocalRange
  with assms have "resolveLocalRefs env rng s = (res, s')" by (simp add: resolveRefs_def)
  from summary_local[OF this] LocalRange show ?thesis by (auto intro: grows_mono)
next
  case RemoteRange
  with assms have "resolveRemoteRefs env p rng s = (res, s')" by (simp add: resolveRefs_def)
  from summary_remote[OF this] show ?thesis by blast
next
  case PrRef
  with assms have "resolvePRRefs env p rng s = (res, s')" by (simp add: resolveRefs_def)
  from summary_pr[OF this] show ?thesis by blast
next
  case GithubUrl
  with assms have "resolvePRRefs env p rng s = (res, s')" by (simp add: resolveRefs_def)
  from summary_pr[OF this] show ?thesis by blast
next
  case PrRange
  with assms have "resolvePRRangeRefs env p rng s = (res, s')" by (simp add: resolveRefs_def)
  from summary_pr_range[OF this] show ?thesis by blast
next
  case GitUrlRange
  with assms have "resolveGitUrlRefs env p rng s = (res, s')" by (simp add: resolveRefs_def)
  from summary_git_url[OF this] show ?thesis by blast
next
  case GithubCommitUrl
  with assms have "resolveGitHubCommitRefs env p rng s = (res, s')" by (simp add: resolveRefs_def)
  from summary_commit[OF this] show ?thesis by blast
next
  case GithubPrChangesUrl
  with assms have "resolveGitHubPRChangesRefs env p rng s = (res, s')" by (simp add: resolveRefs_def)
  from summary_pr_changes[OF this] show ?thesis by blast
next
  case GithubCompareUrl
  with assms have "resolveGitHubCompareRefs env p rng s = (res, s')" by (simp add: resolveRefs_def)
  from summary_compare[OF this] show ?thesis by blast
next
  case GitlabMrRef
  with assms have "resolveGitLabMRRefs env p rng s = (res, s')" by (simp add: resolveRefs_def)
  from summary_mr[OF this] show ?thesis by blast
qed

lemma deleteRefs_deletes:
  assumes "r \<in> set rs" and "\<forall>st. update_ref_error env st r = None"
  shows "r \<notin> refs (snd (deleteRefs env rs s))"
  using assms(1)
proof (induction rs arbitrary: s)
  case Nil
  then show ?case by simp
next
  case (Cons x rs)
  show ?case
  proof (cases "x = r")
    case True
    with assms(2) have "r \<notin> refs (snd (deleteRef env x s))"
      by (simp add: deleteRef_refs)
    with deleteRefs_refs_subset[of env rs "snd (deleteRef env x s)"] show ?thesis
      by (auto simp: deleteRefs_Cons)
  next
    case False
    with Cons.prems have "r \<in> set rs" by simp
    from Cons.IH[OF this] show ?thesis by (simp add: deleteRefs_Cons)
  qed
qed

section \<open>Which matchers can accept the same input\<close>

lemma rx_match_Lit_Some:
  "rx_match ic (Lit c # r) s caps = Some out \<Longrightarrow>
     \<exists>x xs. s = x # xs \<and> canon ic x = canon ic c \<and> rx_match ic r xs caps = Some out"
  by (cases s) (auto split: if_splits)

lemma canon_g_h_l:
  "canon True CHR ''g'' \<noteq> canon True CHR ''h''"
  "canon True CHR ''l'' \<noteq> canon True CHR ''h''"
  by code_simp+

lemma host_range_first_char:
  assumes "parseHostRefRange (c # h) input = Some g"
  shows "\<exists>x xs. input = x # xs \<and> canon True x = canon True c"
proof -
  from assms obtain out where
    "rx_match True (Lit c # (lits h @ lits '':'' @
              [Cap (NotChar CHR ''/'') 1 None, Lit CHR ''/'', Cap (NotChar CHR ''@'') 1 None,
               Lit CHR ''@'', Cap AnyChar 1 None] @ lits ''..'' @ [Cap AnyChar 1 None])) input [] = Some out"
    by (auto simp: parseHostRefRange_def lits_def split: option.splits)
  from rx_match_Lit_Some[OF this] show ?thesis by blast
qed

lemma host_range_fourth_char:
  assumes "parseHostRefRange (c1 # c2 # c3 # c4 # h) input = Some g"
  shows "\<exists>x1 x2 x3 x4 xs. input = x1 # x2 # x3 # x4 # xs \<and> canon True x4 = canon True c4"
proof -
  from assms obtain out where
    "rx_match True (Lit c1 # Lit c2 # Lit c3 # Lit c4 # (lits h @ lits '':'' @
              [Cap (NotChar CHR ''/'') 1 None, Lit CHR ''/'', Cap (NotChar CHR ''@'') 1 None,
               Lit CHR ''@'', Cap AnyChar 1 None] @ lits ''..'' @ [Cap AnyChar 1 None])) input [] = Some out"
    by (auto simp: parseHostRefRange_def lits_def split: option.splits)
  from rx_match_Lit_Some[OF this] obtain x1 s1 where 1: "input = x1 # s1"
    and "rx_match True (Lit c2 # Lit c3 # Lit c4 # (lits h @ lits '':'' @
              [Cap (NotChar CHR ''/'') 1 None, Lit CHR ''/'', Cap (NotChar CHR ''@'') 1 None,
               Lit CHR ''@'', Cap AnyChar 1 None] @ lits ''..'' @ [Cap AnyChar 1 None])) s1 [] = Some out"
    by blast
  from rx_match_Lit_Some[OF this(2)] obtain x2 s2 where 2: "s1 = x2 # s2"
    and "rx_match True (Lit c3 # Lit c4 # (lits h @ lits '':'' @
              [Cap (NotChar CHR ''/'') 1 None, Lit CHR ''/'', Cap (NotChar CHR ''@'') 1 None,
               Lit CHR ''@'', Cap AnyChar 1 None] @ lits ''..'' @ [Cap AnyChar 1 None])) s2 [] = Some out"
    by blast
  from rx_match_Lit_Some[OF this(2)] obtain x3 s3 where 3: "s2 = x3 # s3"
    and "rx_match True (Lit c4 # (lits h @ lits '':'' @
              [Cap (NotChar CHR ''/'') 1 None, Lit CHR ''/'', Cap (NotChar CHR ''@'') 1 None,
               Lit CHR ''@'', Cap AnyChar 1 None] @ lits ''..'' @ [Cap AnyChar 1 None])) s3 [] = Some out"
    by blast
  from rx_match_Lit_Some[OF this(2)] obtain x4 s4 where "s3 = x4 # s4" "canon True x4 = canon True c4"
    by blast
  with 1 2 3 show ?thesis by blast
qed

lemma github_url_first_char:
  assumes "rx_match True (github_repo_url @ r) input caps = Some out"
  shows "\<exists>x xs. input = x # xs \<and> canon True x = canon True CHR ''h''"
proof -
  have "github_repo_url @ r = Lit CHR ''h'' # (lits ''ttp'' @ [Opt [Lit CHR ''s'']] @ lits ''://github.com/'' @
     [Cap (NotChar CHR ''/'') 1 None, Lit CHR ''/'', Cap (NotChar CHR ''/'') 1 None] @ r)"
    by (simp add: github_repo_url_def lits_def)
  with assms rx_match_Lit_Some show ?thesis by metis
qed

lemma not_http_no_url_match:
  assumes "input = x # xs" and "canon True x \<noteq> canon True CHR ''h''"
  shows "parseGitHubCompareUrl input = None" "parseGitHubPRChangesUrl input = None"
        "parseGitHubPRUrl input = None" "parseGitHubCommitUrl input = None"
proof -
  have n: "\<And>r. rx_match True (github_repo_url @ r) input [] = None"
    using github_url_first_char assms by (metis list.inject not_Some_eq)
  show "parseGitHubCompareUrl input = None"
    by (simp add: parseGitHubCompareUrl_def n)
  show "parseGitHubPRChangesUrl input = None"
    by (simp add: parseGitHubPRChangesUrl_def n)
  show "parseGitHubPRUrl input = None"
    by (simp add: parseGitHubPRUrl_def n)
  show "parseGitHubCommitUrl input = None"
    by (simp add: parseGitHubCommitUrl_def n)
qed

lemma host_range_not_url:
  assumes "parseGithubRefRange input = Some g \<or> parseGitlabRefRange input = Some g"
  shows "parseGitHubCompareUrl input = None" "parseGitHubPRChangesUrl input = None"
        "parseGitHubPRUrl input = None" "parseGitHubCommitUrl input = None"
proof -
  from assms obtain x xs where "input = x # xs" "canon True x = canon True CHR ''g''"
    unfolding parseGithubRefRange_def parseGitlabRefRange_def
    using host_range_first_char by blast
  then have "input = x # xs" "canon True x \<noteq> canon True CHR ''h''"
    using canon_g_h_l by simp_all
  from not_http_no_url_match[OF this]
  show "parseGitHubCompareUrl input = None" "parseGitHubPRChangesUrl input = None"
        "parseGitHubPRUrl input = None" "parseGitHubCommitUrl input = None"
    by simp_all
qed

lemma gitlab_range_not_github:
  assumes "parseGitlabRefRange input = Some g"
  shows "parseGithubRefRange input = None"
proof (rule ccontr)
  assume "parseGithubRefRange input \<noteq> None"
  then obtain g' where "parseHostRefRange ''github'' input = Some g'"
    by (auto simp: parseGithubRefRange_def)
  from host_range_fourth_char[OF this]
  obtain x1 x2 x3 x4 xs where a: "input = x1 # x2 # x3 # x4 # xs" "canon True x4 = canon True CHR ''h''"
    by blast
  from assms have "parseHostRefRange ''gitlab'' input = Some g"
    by (simp add: parseGitlabRefRange_def)
  from host_range_fourth_char[OF this]
  obtain y1 y2 y3 y4 ys where b: "input = y1 # y2 # y3 # y4 # ys" "canon True y4 = canon True CHR ''l''"
    by blast
  from a b canon_g_h_l show False by simp
qed

section \<open>Ranges that only the local matcher accepts\<close>

lemma split_dotdot_not_Nil: "split_dotdot s \<noteq> []"
  by (induction s rule: split_dotdot.induct) (auto split: list.splits)

lemma split_dotdot_single: "split_dotdot s = [p] \<Longrightarrow> s = p"
proof (induction s arbitrary: p rule: split_dotdot.induct)
  case 1
  then show ?case by simp
next
  case (2 a)
  then show ?case by simp
next
  case (3 a b cs)
  show ?case
  proof (cases "a = CHR ''.'' \<and> b = CHR ''.''")
    case True
    with "3.prems" show ?thesis by (simp add: split_dotdot_not_Nil)
  next
    case False
    with "3.prems" obtain q where "split_dotdot (b # cs) = [q]" "p = a # q"
      by (auto simp: split_dotdot_not_Nil split: list.splits)
    with "3.IH"(2)[OF False] show ?thesis by simp
  qed
qed

lemma split_dotdot_two:
  "split_dotdot s = [p0, p1] \<Longrightarrow> indexOf s ''..'' = Some (length p0) \<and> s = p0 @ ''..'' @ p1"
proof (induction s arbitrary: p0 rule: split_dotdot.induct)
  case 1
  then show ?case by simp
next
  case (2 a)
  then show ?case by simp
next
  case (3 a b cs)
  show ?case
  proof (cases "a = CHR ''.'' \<and> b = CHR ''.''")
    case True
    with "3.prems" have "p0 = []" "split_dotdot cs = [p1]" by simp_all
    with True split_dotdot_single[of cs p1] show ?thesis by simp
  next
    case False
    with "3.prems" obtain q where q: "split_dotdot (b # cs) = [q, p1]" "p0 = a # q"
      by (auto simp: split_dotdot_not_Nil split: list.splits)
    from "3.IH"(2)[OF False q(1)] have i: "indexOf (b # cs) ''..'' = Some (length q)"
      and e: "b # cs = q @ ''..'' @ p1" by blast+
    from False have ns: "\<not> startsWith (a # b # cs) ''..''" by auto
    have "indexOf (a # b # cs) ''..'' = map_option Suc (indexOf (b # cs) ''..'')"
      by (simp only: indexOf.simps ns if_False)
    with i q(2) have 1: "indexOf (a # b # cs) ''..'' = Some (length p0)" by simp
    have 2: "a # b # cs = p0 @ ''..'' @ p1" by (simp add: e q(2))
    from 1 2 show ?thesis by blast
  qed
qed

lemma parseLocalRefRange_sides:
  assumes "parseLocalRefRange input = Some (l, r)"
  shows "\<exists>i. indexOf input ''..'' = Some i \<and> l = trim (take i input) \<and> r = trim (drop (i + 2) input)"
proof -
  from assms obtain p0 p1 where sp: "split_dotdot input = [p0, p1]" and lr: "l = trim p0" "r = trim p1"
    by (auto simp: parseLocalRefRange_def split: list.splits if_splits)
  from split_dotdot_two[OF sp] have i: "indexOf input ''..'' = Some (length p0)"
    and e: "input = p0 @ ''..'' @ p1" by blast+
  have t: "take (length p0) input = p0" by (subst e) simp
  have d: "drop (length p0 + 2) input = p1" by (subst e) simp
  show ?thesis
    by (rule exI[of _ "length p0"]) (simp only: i t d lr simp_thms)
qed

lemma parseRemoteSide_Nil: "parseRemoteSide [] = None"
  by (simp add: parseRemoteSide_def run_len_def)

lemma parseRemoteRefRange_mismatch:
  assumes "indexOf input ''..'' = Some i"
      and "parseRemoteSide (trim (take i input)) = Some (lo, lr, lref)"
      and "parseRemoteSide (trim (drop (i + 2) input)) = Some (ro, rr, rref)"
      and "lo \<noteq> ro \<or> lr \<noteq> rr"
  shows "parseRemoteRefRange input = None"
proof -
  from assms(2) have "trim (take i input) \<noteq> []"
    using parseRemoteSide_Nil by auto
  moreover from assms(3) have "trim (drop (i + 2) input) \<noteq> []"
    using parseRemoteSide_Nil by auto
  ultimately show ?thesis
    using assms by (auto simp: parseRemoteRefRange_def Let_def)
qed

lemma resolveLocalRefs_result:
  "fst (resolveRefs env tempPrefix (local_range_of (l, r)) s) =
     (if \<not> rev_parse_ok env s (normalizeRef l)
      then Inl (DiffxError (''Left ref does not exist: '' @ l) INVALID_INPUT)
      else if \<not> rev_parse_ok env (logged (RevParseVerify (normalizeRef l)) s) (normalizeRef r)
      then Inl (DiffxError (''Right ref does not exist: '' @ r) INVALID_INPUT)
      else Inr \<lparr> res_left = normalizeRef l, res_right = normalizeRef r, cleanup = None \<rparr>)"
  by (simp add: resolveRefs_def local_range_of_def mkRange_def resolveLocalRefs_def
        refExistsAny_def Let_def)

lemma higher_than_remote_decline:
  assumes "first_success (take 10 matcher_order) input = None"
  shows "parsePRRange input = None \<and> parseGitUrlRange input = None
       \<and> parseGitHubCompareUrl input = None \<and> parseGitHubPRChangesUrl input = None
       \<and> parseGitHubPRUrl input = None \<and> parseGitHubCommitUrl input = None
       \<and> parseGithubRefRange input = None \<and> parseGitlabRefRange input = None
       \<and> parsePRRef input = None \<and> parseMRRef input = None"
  using assms unfolding first_success_None_iff matcher_order_def
  by simp


subsection \<open>What the pull-request patterns capture\<close>

lemma first_down_Some:
  "first_down f n lo = Some y \<Longrightarrow> \<exists>k. lo \<le> k \<and> k \<le> n \<and> f k = Some y"
proof (induction n)
  case 0
  then show ?case by (auto split: if_splits)
next
  case (Suc n)
  show ?case
  proof (cases "f (Suc n)")
    case None
    with Suc.prems have "first_down f n lo = Some y" by (auto split: if_splits)
    from Suc.IH[OF this] show ?thesis by (meson le_SucI)
  next
    case (Some z)
    with Suc.prems have "z = y" "lo \<le> Suc n" by (auto split: if_splits)
    with Some show ?thesis by blast
  qed
qed

lemma run_len_take:
  assumes "k \<le> run_len ic cl hi s"
  shows "k \<le> length s \<and> (\<forall>c \<in> set (take k s). in_class ic cl c)"
proof -
  from assms have k: "k \<le> length (takeWhile (in_class ic cl) s)"
    by (auto simp: run_len_def Let_def split: option.splits)
  then have "k \<le> length s"
    using length_takeWhile_le[of "in_class ic cl" s] by linarith
  moreover have "take k s = take k (takeWhile (in_class ic cl) s)"
    using k by (metis append_eq_conv_conj length_take min.absorb2 take_append takeWhile_dropWhile_id
        take_all_iff diff_is_0_eq' take_0 append_Nil2)
  then have "\<forall>c \<in> set (take k s). in_class ic cl c"
    by (metis in_set_takeD set_takeWhileD)
  ultimately show ?thesis by blast
qed

lemma rx_match_Cap_Some:
  assumes "rx_match ic (Cap cl lo hi # r) s caps = Some out"
  shows "\<exists>k. lo \<le> k \<and> k \<le> length s \<and> (\<forall>c \<in> set (take k s). in_class ic cl c)
           \<and> rx_match ic r (drop k s) (caps @ [take k s]) = Some out"
proof -
  from assms have "first_down (\<lambda>k. rx_match ic r (drop k s) (caps @ [take k s]))
                     (run_len ic cl hi s) lo = Some out"
    by simp
  from first_down_Some[OF this] run_len_take show ?thesis by blast
qed

lemma rx_match_Rep_Some:
  assumes "rx_match ic (Rep cl lo hi # r) s caps = Some out"
  shows "\<exists>k. rx_match ic r (drop k s) caps = Some out"
proof -
  from assms have "first_down (\<lambda>k. rx_match ic r (drop k s) caps) (run_len ic cl hi s) lo = Some out"
    by simp
  from first_down_Some[OF this] show ?thesis by blast
qed

lemma rx_match_Nil_Some: "rx_match ic [] s caps = Some out \<Longrightarrow> s = [] \<and> out = caps"
  by (auto split: if_splits)

lemma rx_match_Opt_Some:
  "rx_match ic (Opt xs # r) s caps = Some out \<Longrightarrow>
     rx_match ic (xs @ r) s caps = Some out \<or> rx_match ic r s caps = Some out"
  by (auto split: option.splits)

lemma rx_match_lits_Some:
  "rx_match ic (lits p @ r) s caps = Some out \<Longrightarrow> \<exists>s'. rx_match ic r s' caps = Some out"
proof (induction p arbitrary: s)
  case Nil
  then show ?case by (auto simp: lits_def)
next
  case (Cons c p)
  then have "rx_match ic (Lit c # (lits p @ r)) s caps = Some out"
    by (simp add: lits_def)
  from rx_match_Lit_Some[OF this] Cons.IH show ?case by blast
qed

lemma owner_repo_digits_tail:
  assumes "rx_match True ([Cap (NotChar CHR ''/'') 1 None, Lit CHR ''/'', Cap (NotChar CHR ''/'') 1 None]
             @ r) s [] = Some out"
  shows "\<exists>ow rp s'. ow \<noteq> [] \<and> CHR ''/'' \<notin> set ow \<and> rp \<noteq> [] \<and> CHR ''/'' \<notin> set rp
           \<and> rx_match True r s' [ow, rp] = Some out"
proof -
  from assms have "rx_match True (Cap (NotChar CHR ''/'') 1 None #
        (Lit CHR ''/'' # Cap (NotChar CHR ''/'') 1 None # r)) s [] = Some out"
    by simp
  from rx_match_Cap_Some[OF this] obtain k1 where k1: "1 \<le> k1" "k1 \<le> length s"
    "\<forall>c \<in> set (take k1 s). in_class True (NotChar CHR ''/'') c"
    and m1: "rx_match True (Lit CHR ''/'' # Cap (NotChar CHR ''/'') 1 None # r) (drop k1 s) [take k1 s] = Some out"
    by auto
  from rx_match_Lit_Some[OF m1] obtain s2 where
    m2: "rx_match True (Cap (NotChar CHR ''/'') 1 None # r) s2 [take k1 s] = Some out"
    by blast
  from rx_match_Cap_Some[OF m2] obtain k2 where k2: "1 \<le> k2" "k2 \<le> length s2"
    "\<forall>c \<in> set (take k2 s2). in_class True (NotChar CHR ''/'') c"
    and m3: "rx_match True r (drop k2 s2) [take k1 s, take k2 s2] = Some out"
    by auto
  from k1 have "take k1 s \<noteq> []" "CHR ''/'' \<notin> set (take k1 s)"
    by auto
  moreover from k2 have "take k2 s2 \<noteq> []" "CHR ''/'' \<notin> set (take k2 s2)"
    by auto
  ultimately show ?thesis using m3 by blast
qed

lemma caps_three_digits:
  assumes "rx_match True (Cap Digit 1 None # r) s [ow, rp] = Some out"
      and "\<forall>s' caps. rx_match True r s' caps = Some out \<longrightarrow> out = caps"
  shows "\<exists>n. out = [ow, rp, n]"
proof -
  from rx_match_Cap_Some[OF assms(1)] obtain k where
    "rx_match True r (drop k s) ([ow, rp] @ [take k s]) = Some out"
    by blast
  with assms(2) show ?thesis by auto
qed

lemma parsePRRef_owner_repo:
  assumes "parsePRRef input = Some pr"
  shows "owner pr \<noteq> [] \<and> CHR ''/'' \<notin> set (owner pr) \<and> repo pr \<noteq> [] \<and> CHR ''/'' \<notin> set (repo pr)"
proof -
  from assms obtain out where
    m: "rx_match True (lits ''github:'' @
              ([Cap (NotChar CHR ''/'') 1 None, Lit CHR ''/'', Cap (NotChar CHR ''/'') 1 None]
               @ [Lit CHR ''#'', Cap Digit 1 None])) input [] = Some out"
    and o: "\<exists>n. out = [owner pr, repo pr, n]"
    by (auto simp: parsePRRef_def split: option.splits list.splits)
  from rx_match_lits_Some[OF m] obtain s1 where
    "rx_match True ([Cap (NotChar CHR ''/'') 1 None, Lit CHR ''/'', Cap (NotChar CHR ''/'') 1 None]
               @ [Lit CHR ''#'', Cap Digit 1 None]) s1 [] = Some out"
    by blast
  from owner_repo_digits_tail[OF this] obtain ow rp s2 where
    w: "ow \<noteq> []" "CHR ''/'' \<notin> set ow" "rp \<noteq> []" "CHR ''/'' \<notin> set rp"
    and m2: "rx_match True [Lit CHR ''#'', Cap Digit 1 None] s2 [ow, rp] = Some out"
    by blast
  from rx_match_Lit_Some[OF m2] obtain s3 where
    "rx_match True (Cap Digit 1 None # []) s3 [ow, rp] = Some out"
    by blast
  moreover have "\<forall>s' caps. rx_match True [] s' caps = Some out \<longrightarrow> out = caps"
    using rx_match_Nil_Some by blast
  ultimately obtain n where "out = [ow, rp, n]"
    using caps_three_digits by blast
  with o w show ?thesis by auto
qed

lemma parseGitHubPRUrl_owner_repo:
  assumes "parseGitHubPRUrl input = Some pr"
  shows "owner pr \<noteq> [] \<and> CHR ''/'' \<notin> set (owner pr) \<and> repo pr \<noteq> [] \<and> CHR ''/'' \<notin> set (repo pr)"
proof -
  let ?tail = "lits ''/pull/'' @ [Cap Digit 1 None, Opt [Lit CHR ''/'', Rep AnyChar 0 None]]"
  let ?mid = "lits ''://github.com/'' @
     ([Cap (NotChar CHR ''/'') 1 None, Lit CHR ''/'', Cap (NotChar CHR ''/'') 1 None] @ ?tail)"
  from assms obtain out where
    m: "rx_match True (lits ''http'' @ (Opt [Lit CHR ''s''] # ?mid)) input [] = Some out"
    and o: "\<exists>n. out = [owner pr, repo pr, n]"
    by (auto simp: parseGitHubPRUrl_def github_repo_url_def split: option.splits list.splits)
  from rx_match_lits_Some[OF m] obtain s1 where
    "rx_match True (Opt [Lit CHR ''s''] # ?mid) s1 [] = Some out"
    by blast
  from rx_match_Opt_Some[OF this] have "\<exists>s2. rx_match True ?mid s2 [] = Some out"
  proof
    assume "rx_match True ([Lit CHR ''s''] @ ?mid) s1 [] = Some out"
    then have "rx_match True (Lit CHR ''s'' # ?mid) s1 [] = Some out" by simp
    from rx_match_Lit_Some[OF this] show ?thesis by blast
  next
    assume "rx_match True ?mid s1 [] = Some out"
    then show ?thesis by blast
  qed
  then obtain s2 where "rx_match True ?mid s2 [] = Some out" by blast
  from rx_match_lits_Some[OF this] obtain s3 where
    "rx_match True ([Cap (NotChar CHR ''/'') 1 None, Lit CHR ''/'', Cap (NotChar CHR ''/'') 1 None]
        @ ?tail) s3 [] = Some out"
    by blast
  from owner_repo_digits_tail[OF this] obtain ow rp s4 where
    w: "ow \<noteq> []" "CHR ''/'' \<notin> set ow" "rp \<noteq> []" "CHR ''/'' \<notin> set rp"
    and m2: "rx_match True ?tail s4 [ow, rp] = Some out"
    by blast
  from m2 have "rx_match True (lits ''/pull/'' @
        (Cap Digit 1 None # [Opt [Lit CHR ''/'', Rep AnyChar 0 None]])) s4 [ow, rp] = Some out"
    by simp
  from rx_match_lits_Some[OF this] obtain s5 where
    m3: "rx_match True (Cap Digit 1 None # [Opt [Lit CHR ''/'', Rep AnyChar 0 None]]) s5 [ow, rp] = Some out"
    by blast
  have tail: "\<forall>s' caps. rx_match True [Opt [Lit CHR ''/'', Rep AnyChar 0 None]] s' caps = Some out
        \<longrightarrow> out = caps"
  proof (intro allI impI)
    fix s' caps
    assume "rx_match True [Opt [Lit CHR ''/'', Rep AnyChar 0 None]] s' caps = Some out"
    from rx_match_Opt_Some[OF this] show "out = caps"
    proof
      assume "rx_match True ([Lit CHR ''/'', Rep AnyChar 0 None] @ []) s' caps = Some out"
      then have "rx_match True (Lit CHR ''/'' # [Rep AnyChar 0 None]) s' caps = Some out" by simp
      from rx_match_Lit_Some[OF this] obtain t where
        "rx_match True (Rep AnyChar 0 None # []) t caps = Some out" by blast
      from rx_match_Rep_Some[OF this] rx_match_Nil_Some show ?thesis by blast
    next
      assume "rx_match True [] s' caps = Some out"
      with rx_match_Nil_Some show ?thesis by blast
    qed
  qed
  from caps_three_digits[OF m3 tail] obtain n where "out = [ow, rp, n]"
    by (elim exE)
  with o w show ?thesis by auto
qed

lemma split_char_no_sep: "c \<notin> set b \<Longrightarrow> split_char c b = [b]"
  by (induction b) auto

lemma split_char_append: "c \<notin> set a \<Longrightarrow> split_char c (a @ c # b) = a # split_char c b"
  by (induction a) auto

lemma split_owner_repo_joined:
  assumes "ow \<noteq> []" "CHR ''/'' \<notin> set ow" "rp \<noteq> []" "CHR ''/'' \<notin> set rp"
  shows "split_owner_repo (ow @ ''/'' @ rp) = Some (ow, rp)"
  using assms by (simp add: split_owner_repo_def split_char_append split_char_no_sep)

lemma parsed_pr_owner_repo_splits:
  assumes "parsePRRef input = Some pr \<or> parseGitHubPRUrl input = Some pr"
  shows "split_owner_repo (owner pr @ ''/'' @ repo pr) = Some (owner pr, repo pr)"
proof -
  from assms have "owner pr \<noteq> [] \<and> CHR ''/'' \<notin> set (owner pr)
      \<and> repo pr \<noteq> [] \<and> CHR ''/'' \<notin> set (repo pr)"
    using parsePRRef_owner_repo parseGitHubPRUrl_owner_repo by blast
  then show ?thesis
    by (intro split_owner_repo_joined) simp_all
qed

lemma range_types:
  "type (pr_range_of p) = PrRange"
  "type (git_url_range_of g) = GitUrlRange"
  "type (compare_url_of c) = GithubCompareUrl"
  "type (pr_changes_url_of pc) = GithubPrChangesUrl"
  "type (github_url_of pr) = GithubUrl"
  "type (commit_url_of cm) = GithubCommitUrl"
  "type (host_ref_range_of host h) = GitUrlRange"
  "type (pr_ref_of pr) = PrRef"
  "type (mr_ref_of pr) = GitlabMrRef"
  "type (remote_range_of rr) = RemoteRange"
  "type (local_range_of l) = LocalRange"
  by (simp_all add: pr_range_of_def git_url_range_of_def compare_url_of_def pr_changes_url_of_def
      github_url_of_def commit_url_of_def host_ref_range_of_def pr_ref_of_def mr_ref_of_def
      remote_range_of_def local_range_of_def mkRange_def Let_def split: prod.splits)

lemma parsed_single_pr_range:
  assumes "parseRangeInput input = Inr rng"
      and "type rng = PrRef \<or> type rng = GithubUrl"
  shows "\<exists>pr. (parsePRRef input = Some pr \<or> parseGitHubPRUrl input = Some pr)
            \<and> ownerRepo rng = Some (owner pr @ ''/'' @ repo pr) \<and> prNumber rng = Some (number pr)"
proof -
  from assms(1) obtain m where m: "first_success matcher_order input = Some rng"
    by (auto simp: parseRangeInput_cascade split: option.splits)
  then have "(\<exists>pr. parseGitHubPRUrl input = Some pr \<and> rng = github_url_of pr)
           \<or> (\<exists>pr. parsePRRef input = Some pr \<and> rng = pr_ref_of pr)
           \<or> type rng \<notin> {PrRef, GithubUrl}"
    unfolding matcher_order_def
    by (auto simp: range_types split: option.splits)
  with assms(2) show ?thesis
    by (auto simp: github_url_of_def pr_ref_of_def mkRange_def)
qed


subsection \<open>The decimal text of a number\<close>

lemma list_all_upt: "list_all P [0..<m] \<Longrightarrow> k < m \<Longrightarrow> P k"
  by (simp add: list_all_iff)

lemma digit_chars:
  "list_all (\<lambda>k. (char_of (48 + k) :: char) \<in> set ''0123456789''
               \<and> (of_char (char_of (48 + k) :: char) :: nat) = 48 + k
               \<and> ((char_of (48 + k) :: char) = CHR ''0'') = (k = 0)) [0..<10]"
  by code_simp

lemmas digit_char = list_all_upt[OF digit_chars]

lemma show_nat_small: "n < 10 \<Longrightarrow> show_nat n = [char_of (48 + n)]"
  by (subst show_nat.simps) simp

lemma show_nat_large:
  "\<not> n < 10 \<Longrightarrow> show_nat n = show_nat (n div 10) @ [char_of (48 + n mod 10)]"
  by (subst show_nat.simps) simp

lemma show_nat_not_Nil: "show_nat n \<noteq> []"
  by (cases "n < 10") (simp_all only: show_nat_small show_nat_large append_is_Nil_conv
      list.distinct simp_thms not_False_eq_True)

lemma show_nat_digits: "list_all (\<lambda>c. c \<in> set ''0123456789'') (show_nat n)"
proof (induction n rule: show_nat.induct)
  case (1 n)
  show ?case
  proof (cases "n < 10")
    case True
    from digit_char[OF True, THEN conjunct1] show ?thesis
      by (simp only: show_nat_small[OF True] list.pred_inject simp_thms)
  next
    case False
    have "n mod 10 < 10" by simp
    from digit_char[OF this, THEN conjunct1] 1[OF False] show ?thesis
      by (simp only: show_nat_large[OF False] list_all_append list.pred_inject simp_thms)
  qed
qed

lemma show_nat_value: "foldl (\<lambda>a c. 10 * a + (of_char c - 48)) 0 (show_nat n) = n"
proof (induction n rule: show_nat.induct)
  case (1 n)
  show ?case
  proof (cases "n < 10")
    case True
    from digit_char[OF True, THEN conjunct2, THEN conjunct1] show ?thesis
      by (simp only: show_nat_small[OF True] foldl.simps)
  next
    case False
    have "n mod 10 < 10" by simp
    from digit_char[OF this, THEN conjunct2, THEN conjunct1] 1[OF False] show ?thesis
      by (simp only: show_nat_large[OF False] foldl_append foldl.simps) simp
  qed
qed

lemma show_nat_hd: "(hd (show_nat n) = CHR ''0'') = (n = 0)"
proof (induction n rule: show_nat.induct)
  case (1 n)
  show ?case
  proof (cases "n < 10")
    case True
    from digit_char[OF True, THEN conjunct2, THEN conjunct2] show ?thesis
      by (simp only: show_nat_small[OF True] list.sel)
  next
    case False
    then have nz: "n div 10 \<noteq> 0" "n \<noteq> 0" by simp_all
    have "hd (show_nat n) = hd (show_nat (n div 10))"
      by (simp only: show_nat_large[OF False] hd_append2[OF show_nat_not_Nil])
    with 1[OF False] nz show ?thesis
      by (simp only: simp_thms)
  qed
qed

lemma show_nat_zero: "show_nat 0 = ''0''"
  by code_simp

lemma show_nat_decimal_text: "decimal_text n (show_nat n)"
  unfolding decimal_text_def
proof (intro conjI impI)
  show "show_nat n \<noteq> []" by (rule show_nat_not_Nil)
  show "list_all (\<lambda>c. c \<in> set ''0123456789'') (show_nat n)" by (rule show_nat_digits)
  show "foldl (\<lambda>a c. 10 * a + (of_char c - 48)) 0 (show_nat n) = n" by (rule show_nat_value)
next
  assume "hd (show_nat n) = CHR ''0''"
  then have "n = 0" by (simp only: show_nat_hd)
  then show "show_nat n = ''0''" by (simp only: show_nat_zero)
qed

section \<open>Temporary refs and their cleanup\<close>

text \<open>
  Claim C1, as stated: every resolver execution, also one that fails partway, removes the
  temp refs it created or covers them by a returned cleanup callback. When the second of
  the two fetches of a PR range fails, the resolver raises a git error, returns no callback
  and has called no ref deletion, while the two temp refs of the first fetch exist.
\<close>

theorem pr_range_failure_leaves_temp_refs:
  "fst (resolveRefs env_second_fetch_fails ''refs/diffx/tmp/t''
          (pr_range_of (\<lparr> owner = ''o'', repo = ''r'', number = 1 \<rparr>,
                        \<lparr> owner = ''o'', repo = ''r'', number = 2 \<rparr>)) initial_state) =
     Inl (DiffxError ''Failed to fetch PR range refs: network down'' GIT_ERROR)
   \<and> refs (snd (resolveRefs env_second_fetch_fails ''refs/diffx/tmp/t''
          (pr_range_of (\<lparr> owner = ''o'', repo = ''r'', number = 1 \<rparr>,
                        \<lparr> owner = ''o'', repo = ''r'', number = 2 \<rparr>)) initial_state)) =
     {''refs/diffx/tmp/t/left/pull/1/head'', ''refs/diffx/tmp/t/left/pull/1/merge''}
   \<and> deletions (calls (snd (resolveRefs env_second_fetch_fails ''refs/diffx/tmp/t''
          (pr_range_of (\<lparr> owner = ''o'', repo = ''r'', number = 1 \<rparr>,
                        \<lparr> owner = ''o'', repo = ''r'', number = 2 \<rparr>)) initial_state))) = []"
  by code_simp

text \<open>
  Claim C1, amended. A resolver never deletes a ref itself. When it returns, every ref it
  created is among the refs of the returned cleanup callback, which calls the ref deletion
  on each of them (and removes them all when no deletion fails). When it fails, no cleanup
  takes place: the refs created before the failure remain.
\<close>

theorem resolvers_cover_created_refs:
  assumes "resolveRefs env tempPrefix rng s = (res, s')"
  shows "refs s \<subseteq> refs s' \<and> deletions (calls s') = deletions (calls s)
       \<and> (\<forall>r. res = Inr r \<longrightarrow>
             refs s' - refs s \<subseteq> set (cleanup_refs r)
             \<and> (\<forall>s2. calls (snd (run_cleanup env r s2)) =
                       calls s2 @ map UpdateRefDelete (cleanup_refs r))
             \<and> ((\<forall>st x. update_ref_error env st x = None) \<longrightarrow>
                  (\<forall>s2. refs (snd (run_cleanup env r s2)) = refs s2 - set (cleanup_refs r))))"
proof -
  note sm = summary_resolveRefs[OF assms]
  have rc: "\<And>r s2. calls (snd (run_cleanup env r s2)) =
                       calls s2 @ map UpdateRefDelete (cleanup_refs r)"
    by (simp add: run_cleanup_def cleanup_refs_def deleteRefs_calls split: option.splits)
  have rr: "\<And>r s2. \<forall>st x. update_ref_error env st x = None \<Longrightarrow>
                 refs (snd (run_cleanup env r s2)) = refs s2 - set (cleanup_refs r)"
    by (simp add: run_cleanup_def cleanup_refs_def deleteRefs_refs_all_deleted split: option.splits)
  from sm rc rr show ?thesis
    unfolding grows_def by blast
qed

theorem resolvers_cover_created_refs_witness:
  "fst (resolveRefs env_ok ''refs/diffx/tmp/t''
          ((mkRange GitUrlRange ''main'' ''feature'')
             \<lparr> leftGitUrl := Some ''git@github.com:a/b.git'',
               rightGitUrl := Some ''git@gitlab.com:c/d.git'' \<rparr>) initial_state) =
     Inr \<lparr> res_left = ''refs/diffx/tmp/t/left'', res_right = ''refs/diffx/tmp/t/right'',
           cleanup = Some [''refs/diffx/tmp/t/left'', ''refs/diffx/tmp/t/right''] \<rparr>
   \<and> refs (snd (resolveRefs env_ok ''refs/diffx/tmp/t''
          ((mkRange GitUrlRange ''main'' ''feature'')
             \<lparr> leftGitUrl := Some ''git@github.com:a/b.git'',
               rightGitUrl := Some ''git@gitlab.com:c/d.git'' \<rparr>) initial_state))
       - refs initial_state
     \<subseteq> set [''refs/diffx/tmp/t/left'', ''refs/diffx/tmp/t/right'']"
proof -
  let ?rng = "(mkRange GitUrlRange ''main'' ''feature'')
             \<lparr> leftGitUrl := Some ''git@github.com:a/b.git'',
               rightGitUrl := Some ''git@gitlab.com:c/d.git'' \<rparr>"
  let ?res = "\<lparr> res_left = ''refs/diffx/tmp/t/left'', res_right = ''refs/diffx/tmp/t/right'',
           cleanup = Some [''refs/diffx/tmp/t/left'', ''refs/diffx/tmp/t/right''] \<rparr>"
  have f: "fst (resolveRefs env_ok ''refs/diffx/tmp/t'' ?rng initial_state) = Inr ?res"
    by code_simp
  then have run: "resolveRefs env_ok ''refs/diffx/tmp/t'' ?rng initial_state =
       (Inr ?res, snd (resolveRefs env_ok ''refs/diffx/tmp/t'' ?rng initial_state))"
    by (metis prod.collapse)
  from resolvers_cover_created_refs [OF run]
  have "refs (snd (resolveRefs env_ok ''refs/diffx/tmp/t'' ?rng initial_state)) - refs initial_state
          \<subseteq> set (cleanup_refs ?res)"
    by blast
  with f show ?thesis by (simp add: cleanup_refs_def)
qed

section \<open>The deepening fallback of compare-URL resolution\<close>



section \<open>Malformed owner/repo\<close>

text \<open>
  Claim C3 says that a malformed owner/repo is reported as \<open>INVALID_INPUT\<close> (exit code 2)
  by every resolver. The remote resolver does so. The PR, commit, PR-changes, compare and
  GitLab MR resolvers make the same check and throw the same \<open>INVALID_INPUT\<close> error, but
  inside the \<^verbatim>\<open>try\<close> block whose \<^verbatim>\<open>catch\<close> wraps every error as \<open>GIT_ERROR\<close>: what
  reaches the caller there has exit code 3. No git command is issued in either case.
\<close>

theorem malformed_owner_repo_exit_codes:
  assumes "ownerRepo rng = Some ownerRepo'" and "ownerRepo' \<noteq> []"
      and "split_owner_repo ownerRepo' = None"
  shows "(type rng = RemoteRange \<longrightarrow>
            resolveRemoteRefs env tempPrefix rng s =
              (Inl (DiffxError (''Invalid owner/repo: '' @ ownerRepo') INVALID_INPUT), s))
       \<and> (prNumber rng \<noteq> None \<longrightarrow>
            resolvePRRefs env tempPrefix rng s =
              (Inl (DiffxError (''Failed to fetch PR refs: Invalid owner/repo: '' @ ownerRepo')
                      GIT_ERROR), s))
       \<and> (\<not> falsy (commitSha rng) \<longrightarrow>
            resolveGitHubCommitRefs env tempPrefix rng s =
              (Inl (DiffxError (''Failed to fetch commit refs: Invalid owner/repo: '' @ ownerRepo')
                      GIT_ERROR), s))
       \<and> (prNumber rng \<noteq> None \<and> prNumber rng \<noteq> Some 0
           \<and> \<not> falsy (leftCommitSha rng) \<and> \<not> falsy (rightCommitSha rng) \<longrightarrow>
            resolveGitHubPRChangesRefs env tempPrefix rng s =
              (Inl (DiffxError (''Failed to fetch PR changes refs: Invalid owner/repo: '' @ ownerRepo')
                      GIT_ERROR), s))
       \<and> (\<not> falsy (leftRef rng) \<and> \<not> falsy (rightRef rng) \<longrightarrow>
            resolveGitHubCompareRefs env tempPrefix rng s =
              (Inl (DiffxError (''Failed to fetch compare refs: Invalid owner/repo: '' @ ownerRepo')
                      GIT_ERROR), s))
       \<and> (prNumber rng \<noteq> None \<longrightarrow>
            resolveGitLabMRRefs env tempPrefix rng s =
              (Inl (DiffxError (''Failed to fetch GitLab MR refs: Invalid owner/repo: '' @ ownerRepo')
                      GIT_ERROR), s))
       \<and> exit_code_value INVALID_INPUT = 2 \<and> exit_code_value GIT_ERROR = 3"
  using assms
  by (simp add: resolveRemoteRefs_def resolvePRRefs_def resolveGitHubCommitRefs_def
        resolveGitHubPRChangesRefs_def resolveGitHubCompareRefs_def resolveGitLabMRRefs_def
        fetchMRRefs_def wrap_git_error_def invalid_owner_repo_def falsy_def)

theorem malformed_owner_repo_exit_codes_witness:
  "split_owner_repo ''invalid'' = None
   \<and> resolvePRRefs env_ok ''refs/diffx/tmp/t''
        ((mkRange PrRef [] []) \<lparr> ownerRepo := Some ''invalid'', prNumber := Some 123 \<rparr>)
        initial_state =
       (Inl (DiffxError ''Failed to fetch PR refs: Invalid owner/repo: invalid'' GIT_ERROR),
        initial_state)
   \<and> resolveRemoteRefs env_ok ''refs/diffx/tmp/t''
        ((mkRange RemoteRange ''invalid@a'' ''invalid@b'') \<lparr> ownerRepo := Some ''invalid'' \<rparr>)
        initial_state =
       (Inl (DiffxError ''Invalid owner/repo: invalid'' INVALID_INPUT), initial_state)"
proof -
  have sp: "split_owner_repo ''invalid'' = None"
    by code_simp
  have ne: "''invalid'' \<noteq> []"
    by simp
  let ?pr = "(mkRange PrRef [] []) \<lparr> ownerRepo := Some ''invalid'', prNumber := Some 123 \<rparr>"
  let ?rm = "(mkRange RemoteRange ''invalid@a'' ''invalid@b'') \<lparr> ownerRepo := Some ''invalid'' \<rparr>"
  have a: "ownerRepo ?pr = Some ''invalid''" and b: "prNumber ?pr \<noteq> None"
    by (simp_all add: mkRange_def)
  have c: "ownerRepo ?rm = Some ''invalid''" and d: "type ?rm = RemoteRange"
    by (simp_all add: mkRange_def)
  from malformed_owner_repo_exit_codes [OF a ne sp, of env_ok "''refs/diffx/tmp/t''" initial_state] b
  have 1: "resolvePRRefs env_ok ''refs/diffx/tmp/t'' ?pr initial_state =
       (Inl (DiffxError ''Failed to fetch PR refs: Invalid owner/repo: invalid'' GIT_ERROR),
        initial_state)"
    by simp
  from malformed_owner_repo_exit_codes [OF c ne sp, of env_ok "''refs/diffx/tmp/t''" initial_state] d
  have 2: "resolveRemoteRefs env_ok ''refs/diffx/tmp/t'' ?rm initial_state =
       (Inl (DiffxError ''Invalid owner/repo: invalid'' INVALID_INPUT), initial_state)"
    by simp
  from sp 1 2 show ?thesis by blast
qed

section \<open>Ranges between two pull requests\<close>

text \<open>
  Claim C4, as stated: PR-range resolution fetches the PR head refs (not merge) for both
  sides. The fetches of a PR range name the merge refs as well: on
  \<^verbatim>\<open>github:o/r#1..github:o/r#2\<close> each of the two fetches carries the refspec of
  \<^verbatim>\<open>refs/pull/N/merge\<close> next to that of \<^verbatim>\<open>refs/pull/N/head\<close>.
\<close>

theorem resolvePRRangeRefs_fetches_merge_refs_too:
  "calls (snd (resolveRefs env_ok ''refs/diffx/tmp/t''
           (pr_range_of (\<lparr> owner = ''o'', repo = ''r'', number = 1 \<rparr>,
                         \<lparr> owner = ''o'', repo = ''r'', number = 2 \<rparr>)) initial_state)) =
     [Fetch ''https://github.com/o/r.git''
        [''refs/pull/1/head:refs/diffx/tmp/t/left/pull/1/head'',
         ''refs/pull/1/merge:refs/diffx/tmp/t/left/pull/1/merge''] 2,
      Fetch ''https://github.com/o/r.git''
        [''refs/pull/2/head:refs/diffx/tmp/t/right/pull/2/head'',
         ''refs/pull/2/merge:refs/diffx/tmp/t/right/pull/2/merge''] 2]"
  by code_simp

text \<open>
  Claim C4, amended. PR-range resolution makes one fetch per side at depth 2, each of both
  \<^verbatim>\<open>refs/pull/N/head\<close> and \<^verbatim>\<open>refs/pull/N/merge\<close>, into temp refs under the \<^verbatim>\<open>left/\<close> and
  \<^verbatim>\<open>right/\<close> sub-prefixes. When it returns, the endpoints are the two head temp refs (the
  merge temp refs are fetched but not used), the four temp refs are the refs it created, and
  its cleanup calls the ref deletion on all four. It returns whenever no fetch fails. The
  PR numbers are below \<open>2 ^ 53\<close>, where the code holds them exactly and a template literal
  prints their decimal numerals; the text \<open>N\<close> in the ref names is that numeral.
\<close>

theorem resolvePRRangeRefs_heads:
  assumes "type rng = PrRange" and "leftPr rng = Some l" and "rightPr rng = Some r"
      and "number l < 2 ^ 53" and "number r < 2 ^ 53"
  shows "decimal_text (number l) (show_nat (number l))
       \<and> decimal_text (number r) (show_nat (number r))
       \<and> (let lh = tempPrefix @ ''/left/pull/'' @ show_nat (number l) @ ''/head'';
              lm = tempPrefix @ ''/left/pull/'' @ show_nat (number l) @ ''/merge'';
              rh = tempPrefix @ ''/right/pull/'' @ show_nat (number r) @ ''/head'';
              rm = tempPrefix @ ''/right/pull/'' @ show_nat (number r) @ ''/merge'';
              lfetch = Fetch (''https://github.com/'' @ owner l @ ''/'' @ repo l @ ''.git'')
                         [''refs/pull/'' @ show_nat (number l) @ ''/head:'' @ lh,
                          ''refs/pull/'' @ show_nat (number l) @ ''/merge:'' @ lm] 2;
              rfetch = Fetch (''https://github.com/'' @ owner r @ ''/'' @ repo r @ ''.git'')
                         [''refs/pull/'' @ show_nat (number r) @ ''/head:'' @ rh,
                          ''refs/pull/'' @ show_nat (number r) @ ''/merge:'' @ rm] 2
          in (\<forall>res s'. resolveRefs env tempPrefix rng s = (Inr res, s') \<longrightarrow>
                calls s' = calls s @ [lfetch, rfetch]
                \<and> refs s' = refs s \<union> {lh, lm, rh, rm}
                \<and> res = \<lparr> res_left = lh, res_right = rh, cleanup = Some [lh, lm, rh, rm] \<rparr>
                \<and> (\<forall>s2. calls (snd (run_cleanup env res s2)) =
                           calls s2 @ map UpdateRefDelete [lh, lm, rh, rm]))
             \<and> ((\<forall>st u rs d. fetch_error env st u rs d = None) \<longrightarrow>
                  (\<exists>res s'. resolveRefs env tempPrefix rng s = (Inr res, s'))))"
    (is "_ \<and> _ \<and> ?resolved")
proof -
  have d: "resolveRefs env tempPrefix rng s = resolvePRRangeRefs env tempPrefix rng s"
    using assms(1) by (simp add: resolveRefs_def)
  have r: ?resolved
    unfolding d
    by (auto simp: resolvePRRangeRefs_def assms(2,3) wrap_git_error_def fetchPRRefs_effect
          buildGitHubUrl_def Let_def run_cleanup_def deleteRefs_calls
        split: option.splits)
  show ?thesis
    by (rule conjI[OF show_nat_decimal_text conjI[OF show_nat_decimal_text r]])
qed

theorem resolvePRRangeRefs_heads_witness:
  "parseRangeInput ''github:o/r#1..github:o/r#2'' =
     Inr (pr_range_of (\<lparr> owner = ''o'', repo = ''r'', number = 1 \<rparr>,
                       \<lparr> owner = ''o'', repo = ''r'', number = 2 \<rparr>))
   \<and> (1 :: nat) < 2 ^ 53 \<and> (2 :: nat) < 2 ^ 53
   \<and> decimal_text 1 ''1'' \<and> decimal_text 2 ''2''
   \<and> fst (resolveRefs env_ok ''refs/diffx/tmp/t''
            (pr_range_of (\<lparr> owner = ''o'', repo = ''r'', number = 1 \<rparr>,
                          \<lparr> owner = ''o'', repo = ''r'', number = 2 \<rparr>)) initial_state) =
       Inr \<lparr> res_left = ''refs/diffx/tmp/t/left/pull/1/head'',
             res_right = ''refs/diffx/tmp/t/right/pull/2/head'',
             cleanup = Some [''refs/diffx/tmp/t/left/pull/1/head'',
                             ''refs/diffx/tmp/t/left/pull/1/merge'',
                             ''refs/diffx/tmp/t/right/pull/2/head'',
                             ''refs/diffx/tmp/t/right/pull/2/merge''] \<rparr>
   \<and> refs (snd (resolveRefs env_ok ''refs/diffx/tmp/t''
            (pr_range_of (\<lparr> owner = ''o'', repo = ''r'', number = 1 \<rparr>,
                          \<lparr> owner = ''o'', repo = ''r'', number = 2 \<rparr>)) initial_state)) =
       {''refs/diffx/tmp/t/left/pull/1/head'', ''refs/diffx/tmp/t/left/pull/1/merge'',
        ''refs/diffx/tmp/t/right/pull/2/head'', ''refs/diffx/tmp/t/right/pull/2/merge''}"
proof -
  let ?l = "\<lparr> owner = ''o'', repo = ''r'', number = 1 \<rparr>"
  let ?r = "\<lparr> owner = ''o'', repo = ''r'', number = 2 \<rparr>"
  let ?rng = "pr_range_of (?l, ?r)"
  have p: "parseRangeInput ''github:o/r#1..github:o/r#2'' = Inr ?rng"
    by code_simp
  have t: "type ?rng = PrRange" and lp: "leftPr ?rng = Some ?l" and rp: "rightPr ?rng = Some ?r"
    by (simp_all add: pr_range_of_def mkRange_def)
  have fe: "\<forall>st u rs d. fetch_error env_ok st u rs d = None"
    by (simp add: env_ok_def)
  have s1: "show_nat (Suc 0) = ''1''" and s2: "show_nat 2 = ''2''"
    by code_simp+
  have b: "number ?l < 2 ^ 53" "number ?r < 2 ^ 53"
    by simp_all
  note full = resolvePRRangeRefs_heads [OF t lp rp b, of "''refs/diffx/tmp/t''" env_ok initial_state,
             unfolded Let_def]
  from full [THEN conjunct1] full [THEN conjunct2, THEN conjunct1]
  have dt: "decimal_text 1 ''1''" "decimal_text 2 ''2''"
    by (simp_all add: s1 s2)
  note w = full [THEN conjunct2, THEN conjunct2]
  have "\<exists>res s'. resolveRefs env_ok ''refs/diffx/tmp/t'' ?rng initial_state = (Inr res, s')"
    by (rule w [THEN conjunct2, THEN mp]) (rule fe)
  then obtain res s' where
    run: "resolveRefs env_ok ''refs/diffx/tmp/t'' ?rng initial_state = (Inr res, s')"
    by (elim exE)
  note c = w [THEN conjunct1, THEN spec, THEN spec, THEN mp, OF run]
  from c [THEN conjunct2, THEN conjunct1] c [THEN conjunct2, THEN conjunct2, THEN conjunct1] run p dt
  show ?thesis
    by (simp add: s1 s2 initial_state_def)
qed

section \<open>Precedence of the format matchers\<close>

text \<open>
  Claim C5. \<open>parseRangeInput\<close> tries the matchers in the order PR-range, git-URL-range,
  GitHub-compare-URL, GitHub-PR-changes-URL, GitHub-PR-URL, GitHub-commit-URL,
  GitHub-shorthand-range, GitLab-shorthand-range, GitHub-PR-ref, GitLab-MR-ref, remote-range,
  local-range and returns the first match: its result is the first success of
  \<open>matcher_order\<close>, whose matchers give their results the tags of \<open>tag_order\<close>.
  The input \<^verbatim>\<open>https://github.com/o/r/pull/1..https://github.com/o/r/pull/2\<close> parses as
  a PR range although the local-range matcher, tried alone, accepts it as well.
\<close>

theorem parseRangeInput_precedence:
  "parseRangeInput input =
     (case first_success matcher_order input of
        Some r \<Rightarrow> Inr r
      | None \<Rightarrow> Inl (invalid_range input))
   \<and> list_all2 (\<lambda>m t. \<forall>x r. m x = Some r \<longrightarrow> type r = t) matcher_order tag_order
   \<and> parseRangeInput ''https://github.com/o/r/pull/1..https://github.com/o/r/pull/2'' =
       Inr (pr_range_of (\<lparr> owner = ''o'', repo = ''r'', number = 1 \<rparr>,
                         \<lparr> owner = ''o'', repo = ''r'', number = 2 \<rparr>))
   \<and> type (pr_range_of (\<lparr> owner = ''o'', repo = ''r'', number = 1 \<rparr>,
                         \<lparr> owner = ''o'', repo = ''r'', number = 2 \<rparr>)) = PrRange
   \<and> parseRemoteRefRange ''https://github.com/o/r/pull/1..https://github.com/o/r/pull/2'' = None
   \<and> parseLocalRefRange ''https://github.com/o/r/pull/1..https://github.com/o/r/pull/2'' =
       Some (''https://github.com/o/r/pull/1'', ''https://github.com/o/r/pull/2'')"
proof -
  have tags: "list_all2 (\<lambda>m t. \<forall>x r. m x = Some r \<longrightarrow> type r = t) matcher_order tag_order"
    unfolding matcher_order_def tag_order_def
    by (auto simp: pr_range_of_def git_url_range_of_def compare_url_of_def pr_changes_url_of_def
        github_url_of_def commit_url_of_def host_ref_range_of_def pr_ref_of_def mr_ref_of_def
        remote_range_of_def local_range_of_def mkRange_def Let_def)
  have ex: "parseRangeInput ''https://github.com/o/r/pull/1..https://github.com/o/r/pull/2'' =
       Inr (pr_range_of (\<lparr> owner = ''o'', repo = ''r'', number = 1 \<rparr>,
                         \<lparr> owner = ''o'', repo = ''r'', number = 2 \<rparr>))"
    by code_simp
  have ty: "type (pr_range_of (\<lparr> owner = ''o'', repo = ''r'', number = 1 \<rparr>,
                         \<lparr> owner = ''o'', repo = ''r'', number = 2 \<rparr>)) = PrRange"
    by (simp add: pr_range_of_def mkRange_def)
  have rem: "parseRemoteRefRange ''https://github.com/o/r/pull/1..https://github.com/o/r/pull/2'' = None"
    by code_simp
  have loc: "parseLocalRefRange ''https://github.com/o/r/pull/1..https://github.com/o/r/pull/2'' =
       Some (''https://github.com/o/r/pull/1'', ''https://github.com/o/r/pull/2'')"
    by code_simp
  from parseRangeInput_cascade tags ex ty rem loc show ?thesis by blast
qed

theorem parseRangeInput_precedence_witness:
  "first_success matcher_order ''main..feature'' = Some (local_range_of (''main'', ''feature''))
   \<and> parseRangeInput ''main..feature'' = Inr (local_range_of (''main'', ''feature''))
   \<and> type (local_range_of (''main'', ''feature'')) = LocalRange"
proof -
  have fs: "first_success matcher_order ''main..feature'' = Some (local_range_of (''main'', ''feature''))"
    by code_simp
  have "parseRangeInput ''main..feature'' =
     (case first_success matcher_order ''main..feature'' of
        Some r \<Rightarrow> Inr r
      | None \<Rightarrow> Inl (invalid_range ''main..feature''))"
    using parseRangeInput_precedence [of "''main..feature''"] by blast
  with fs show ?thesis by (simp add: local_range_of_def mkRange_def)
qed
section \<open>Single pull requests\<close>

text \<open>
  Claim C6. For a \<open>pr-ref\<close> or \<open>github-url\<close> range with PR number \<open>N\<close>, resolution issues
  exactly one fetch, of \<^verbatim>\<open>refs/pull/N/head\<close> and \<^verbatim>\<open>refs/pull/N/merge\<close> at depth 2. When the
  fetch succeeds it returns the right endpoint \<^verbatim>\<open><prefix>/pull/N/merge\<close> and the left endpoint
  right + \<^verbatim>\<open>^1\<close>; when the fetch fails it raises a git error carrying the message. The
  \<open>ownerRepo\<close> of the range has to split into owner and repository for the URL to be built;
  it always does in a range that \<^verbatim>\<open>parseRangeInput\<close> returned. The number is below \<open>2 ^ 53\<close>,
  where the code holds it exactly and a template literal prints its decimal numeral; the
  text \<open>N\<close> in the ref names is that numeral.
\<close>

theorem resolvePRRefs_merge_and_first_parent:
  assumes "type rng = PrRef \<or> type rng = GithubUrl"
      and "prNumber rng = Some N"
      and "ownerRepo rng = Some ownerRepo'"
      and "N < 2 ^ 53"
  shows "decimal_text N (show_nat N)
       \<and> (parseRangeInput input = Inr rng \<longrightarrow> (\<exists>o' r. split_owner_repo ownerRepo' = Some (o', r)))
       \<and> (\<forall>o' r. split_owner_repo ownerRepo' = Some (o', r) \<longrightarrow>
           (let h = tempPrefix @ ''/pull/'' @ show_nat N @ ''/head'';
                m = tempPrefix @ ''/pull/'' @ show_nat N @ ''/merge'';
                url = ''https://github.com/'' @ o' @ ''/'' @ r @ ''.git'';
                refspecs = [''refs/pull/'' @ show_nat N @ ''/head:'' @ h,
                            ''refs/pull/'' @ show_nat N @ ''/merge:'' @ m]
            in calls (snd (resolveRefs env tempPrefix rng s)) = calls s @ [Fetch url refspecs 2]
               \<and> fst (resolveRefs env tempPrefix rng s) =
                   (case fetch_error env s url refspecs 2 of
                      None \<Rightarrow> Inr \<lparr> res_left = m @ ''^1'', res_right = m, cleanup = Some [h, m] \<rparr>
                    | Some msg \<Rightarrow> Inl (DiffxError (''Failed to fetch PR refs: '' @ msg) GIT_ERROR))))"
    (is "_ \<and> ?parsed \<and> ?resolved")
proof -
  have p: ?parsed
  proof (rule impI)
    assume p: "parseRangeInput input = Inr rng"
    from parsed_single_pr_range[OF p assms(1)] obtain pr where
      pr: "parsePRRef input = Some pr \<or> parseGitHubPRUrl input = Some pr"
      and o: "ownerRepo rng = Some (owner pr @ ''/'' @ repo pr)"
      by blast
    from o assms(3) have "ownerRepo' = owner pr @ ''/'' @ repo pr"
      by simp
    with parsed_pr_owner_repo_splits[OF pr]
    show "\<exists>o' r. split_owner_repo ownerRepo' = Some (o', r)"
      by blast
  qed
  have r: ?resolved
  proof (intro allI impI)
    fix o' r
    assume sp: "split_owner_repo ownerRepo' = Some (o', r)"
    from assms(1) have "resolveRefs env tempPrefix rng s = resolvePRRefs env tempPrefix rng s"
      by (auto simp: resolveRefs_def)
    then show "(let h = tempPrefix @ ''/pull/'' @ show_nat N @ ''/head'';
                  m = tempPrefix @ ''/pull/'' @ show_nat N @ ''/merge'';
                  url = ''https://github.com/'' @ o' @ ''/'' @ r @ ''.git'';
                  refspecs = [''refs/pull/'' @ show_nat N @ ''/head:'' @ h,
                              ''refs/pull/'' @ show_nat N @ ''/merge:'' @ m]
              in calls (snd (resolveRefs env tempPrefix rng s)) = calls s @ [Fetch url refspecs 2]
                 \<and> fst (resolveRefs env tempPrefix rng s) =
                     (case fetch_error env s url refspecs 2 of
                        None \<Rightarrow> Inr \<lparr> res_left = m @ ''^1'', res_right = m, cleanup = Some [h, m] \<rparr>
                      | Some msg \<Rightarrow> Inl (DiffxError (''Failed to fetch PR refs: '' @ msg) GIT_ERROR)))"
      by (simp add: resolvePRRefs_effect[OF assms(2,3) sp] Let_def split: option.splits)
  qed
  show ?thesis
    by (rule conjI[OF show_nat_decimal_text conjI[OF p r]])
qed

theorem resolvePRRefs_merge_and_first_parent_witness:
  "parseRangeInput ''github:owner/repo#123'' =
     Inr (pr_ref_of \<lparr> owner = ''owner'', repo = ''repo'', number = 123 \<rparr>)
   \<and> type (pr_ref_of \<lparr> owner = ''owner'', repo = ''repo'', number = 123 \<rparr>) = PrRef
   \<and> split_owner_repo ''owner/repo'' = Some (''owner'', ''repo'')
   \<and> (123 :: nat) < 2 ^ 53
   \<and> decimal_text 123 ''123''
   \<and> calls (snd (resolveRefs env_ok ''refs/diffx/tmp/t''
              (pr_ref_of \<lparr> owner = ''owner'', repo = ''repo'', number = 123 \<rparr>) initial_state)) =
       [Fetch ''https://github.com/owner/repo.git''
          [''refs/pull/123/head:refs/diffx/tmp/t/pull/123/head'',
           ''refs/pull/123/merge:refs/diffx/tmp/t/pull/123/merge''] 2]
   \<and> fst (resolveRefs env_ok ''refs/diffx/tmp/t''
              (pr_ref_of \<lparr> owner = ''owner'', repo = ''repo'', number = 123 \<rparr>) initial_state) =
       Inr \<lparr> res_left = ''refs/diffx/tmp/t/pull/123/merge^1'',
             res_right = ''refs/diffx/tmp/t/pull/123/merge'',
             cleanup = Some [''refs/diffx/tmp/t/pull/123/head'', ''refs/diffx/tmp/t/pull/123/merge''] \<rparr>"
proof -
  let ?rng = "pr_ref_of \<lparr> owner = ''owner'', repo = ''repo'', number = 123 \<rparr>"
  have p: "parseRangeInput ''github:owner/repo#123'' = Inr ?rng"
    by code_simp
  have t: "type ?rng = PrRef \<or> type ?rng = GithubUrl"
    by (simp add: pr_ref_of_def mkRange_def)
  have n: "prNumber ?rng = Some 123"
    by (simp add: pr_ref_of_def mkRange_def)
  have orp: "ownerRepo ?rng = Some ''owner/repo''"
    by (simp add: pr_ref_of_def mkRange_def)
  have sp: "split_owner_repo ''owner/repo'' = Some (''owner'', ''repo'')"
    by code_simp
  have sn: "show_nat 123 = ''123''"
    by code_simp
  have fe: "\<And>st u rs d. fetch_error env_ok st u rs d = None"
    by (simp add: env_ok_def)
  have b: "(123 :: nat) < 2 ^ 53"
    by simp
  note main = resolvePRRefs_merge_and_first_parent
    [OF t n orp b, of "''github:owner/repo#123''" "''refs/diffx/tmp/t''" env_ok initial_state]
  from main [THEN conjunct1] have dt: "decimal_text 123 ''123''"
    by (simp only: sn)
  from main [THEN conjunct2, THEN conjunct1, THEN mp, OF p] obtain o' r where
    "split_owner_repo ''owner/repo'' = Some (o', r)"
    by (elim exE)
  with sp have "o' = ''owner''" "r = ''repo''"
    by simp_all
  from main [THEN conjunct2, THEN conjunct2, THEN spec, THEN spec, THEN mp, OF sp]
  have "calls (snd (resolveRefs env_ok ''refs/diffx/tmp/t'' ?rng initial_state)) =
       [Fetch ''https://github.com/owner/repo.git''
          [''refs/pull/123/head:refs/diffx/tmp/t/pull/123/head'',
           ''refs/pull/123/merge:refs/diffx/tmp/t/pull/123/merge''] 2]
     \<and> fst (resolveRefs env_ok ''refs/diffx/tmp/t'' ?rng initial_state) =
       Inr \<lparr> res_left = ''refs/diffx/tmp/t/pull/123/merge^1'',
             res_right = ''refs/diffx/tmp/t/pull/123/merge'',
             cleanup = Some [''refs/diffx/tmp/t/pull/123/head'', ''refs/diffx/tmp/t/pull/123/merge''] \<rparr>"
    by (simp add: Let_def sn fe initial_state_def)
  with p t sp b dt show ?thesis
    by (simp add: pr_ref_of_def mkRange_def)
qed

text \<open>
  Claim C7. Every resolver that fetches returns a cleanup callback, and invoking it never
  raises, in whatever state and however the deletions go: it calls the ref deletion on each
  of its refs in turn, a ref whose deletion cannot fail is gone afterwards whatever happens
  to the others, and no other ref is touched. Invoking it a second time does not raise
  either, and an invocation that finds none of its refs changes nothing in the ref database.
\<close>

theorem cleanup_never_raises:
  assumes "type rng \<noteq> LocalRange" and "resolveRefs env tempPrefix rng s = (Inr res, s')"
  shows "(let once = snd (run_cleanup env res s2);
              twice = snd (run_cleanup env res once)
          in cleanup res = Some (cleanup_refs res)
             \<and> fst (run_cleanup env res s2) = Inr ()
             \<and> calls once = calls s2 @ map UpdateRefDelete (cleanup_refs res)
             \<and> (\<forall>ref \<in> set (cleanup_refs res).
                   (\<forall>st. update_ref_error env st ref = None) \<longrightarrow> ref \<notin> refs once)
             \<and> refs s2 - set (cleanup_refs res) \<subseteq> refs once \<and> refs once \<subseteq> refs s2
             \<and> fst (run_cleanup env res once) = Inr ()
             \<and> (set (cleanup_refs res) \<inter> refs s2 = {} \<longrightarrow> refs once = refs s2)
             \<and> (set (cleanup_refs res) \<inter> refs once = {} \<longrightarrow> refs twice = refs once))"
proof -
  from summary_resolveRefs[OF assms(2)] assms(1) obtain rs where c: "cleanup res = Some rs"
    by auto
  then have cr: "cleanup_refs res = rs"
    by (simp add: cleanup_refs_def)
  have rc: "\<And>st. run_cleanup env res st = deleteRefs env rs st"
    by (simp add: run_cleanup_def c)
  show ?thesis
    unfolding Let_def rc cr
    using deleteRefs_never_raises deleteRefs_calls deleteRefs_deletes deleteRefs_refs_keeps
      deleteRefs_refs_subset deleteRefs_absent_noop c
    by (auto simp: cr)
qed

theorem cleanup_never_raises_witness:
  "parseRangeInput ''owner/repo@v1.0..owner/repo@v2.0'' =
     Inr (remote_range_of (''owner/repo@v1.0'', ''owner/repo@v2.0'', ''owner/repo''))
   \<and> fst (resolveRefs env_ok ''refs/diffx/tmp/t''
            (remote_range_of (''owner/repo@v1.0'', ''owner/repo@v2.0'', ''owner/repo''))
            initial_state) =
       Inr \<lparr> res_left = ''refs/diffx/tmp/t/left'', res_right = ''refs/diffx/tmp/t/right'',
             cleanup = Some [''refs/diffx/tmp/t/left'', ''refs/diffx/tmp/t/right''] \<rparr>
   \<and> fst (run_cleanup (env_locked ''refs/diffx/tmp/t/left'')
            \<lparr> res_left = ''refs/diffx/tmp/t/left'', res_right = ''refs/diffx/tmp/t/right'',
              cleanup = Some [''refs/diffx/tmp/t/left'', ''refs/diffx/tmp/t/right''] \<rparr>
            \<lparr> calls = [], refs = {''refs/diffx/tmp/t/left'', ''refs/diffx/tmp/t/right''} \<rparr>) = Inr ()
   \<and> ''refs/diffx/tmp/t/right'' \<notin>
       refs (snd (run_cleanup (env_locked ''refs/diffx/tmp/t/left'')
            \<lparr> res_left = ''refs/diffx/tmp/t/left'', res_right = ''refs/diffx/tmp/t/right'',
              cleanup = Some [''refs/diffx/tmp/t/left'', ''refs/diffx/tmp/t/right''] \<rparr>
            \<lparr> calls = [], refs = {''refs/diffx/tmp/t/left'', ''refs/diffx/tmp/t/right''} \<rparr>))"
proof -
  let ?rng = "remote_range_of (''owner/repo@v1.0'', ''owner/repo@v2.0'', ''owner/repo'')"
  let ?res = "\<lparr> res_left = ''refs/diffx/tmp/t/left'', res_right = ''refs/diffx/tmp/t/right'',
             cleanup = Some [''refs/diffx/tmp/t/left'', ''refs/diffx/tmp/t/right''] \<rparr>"
  let ?env = "env_locked ''refs/diffx/tmp/t/left''"
  let ?s2 = "\<lparr> calls = [], refs = {''refs/diffx/tmp/t/left'', ''refs/diffx/tmp/t/right''} \<rparr>"
  have p: "parseRangeInput ''owner/repo@v1.0..owner/repo@v2.0'' = Inr ?rng"
    by code_simp
  have t: "type ?rng \<noteq> LocalRange"
    by (simp add: remote_range_of_def mkRange_def)
  have f: "fst (resolveRefs env_ok ''refs/diffx/tmp/t'' ?rng initial_state) = Inr ?res"
    by code_simp
  have f': "fst (resolveRefs ?env ''refs/diffx/tmp/t'' ?rng initial_state) = Inr ?res"
    by code_simp
  then have run: "resolveRefs ?env ''refs/diffx/tmp/t'' ?rng initial_state =
       (Inr ?res, snd (resolveRefs ?env ''refs/diffx/tmp/t'' ?rng initial_state))"
    by (metis prod.collapse)
  note w = cleanup_never_raises [OF t run, of ?s2, unfolded Let_def]
  have ok: "\<forall>st. update_ref_error ?env st ''refs/diffx/tmp/t/right'' = None"
    by (simp add: env_locked_def env_ok_def)
  have m: "''refs/diffx/tmp/t/right'' \<in> set (cleanup_refs ?res)"
    by (simp add: cleanup_refs_def)
  from w have 1: "fst (run_cleanup ?env ?res ?s2) = Inr ()"
    by (elim conjE)
  from w have "\<forall>ref \<in> set (cleanup_refs ?res).
                   (\<forall>st. update_ref_error ?env st ref = None) \<longrightarrow>
                   ref \<notin> refs (snd (run_cleanup ?env ?res ?s2))"
    by (elim conjE)
  with m ok have 2: "''refs/diffx/tmp/t/right'' \<notin> refs (snd (run_cleanup ?env ?res ?s2))"
    by blast
  from p f 1 2 show ?thesis by (intro conjI)
qed

section \<open>Unsupported input\<close>

text \<open>
  Claim C8. For every input that none of the matchers accepts, \<open>parseRangeInput\<close> raises a
  \<open>DiffxError\<close> with exit code \<open>INVALID_INPUT\<close> (2) whose message is
  \<^verbatim>\<open>Invalid range or URL: \<close> followed by the input itself and the list of supported formats.
  The list covers every matcher: for each one, in order of precedence, it shows an example
  that the matcher accepts.
\<close>

theorem parseRangeInput_unsupported:
  assumes "\<forall>m \<in> set matcher_order. m input = None"
  shows "parseRangeInput input =
           Inl (DiffxError (''Invalid range or URL: '' @ input @ supported_formats) INVALID_INPUT)
         \<and> exit_code_value INVALID_INPUT = 2
         \<and> list_all2 (\<lambda>m e. m (snd e) \<noteq> None \<and> str_includes supported_formats (fst e @ snd e))
              matcher_order accepted_examples"
proof -
  from assms have "first_success matcher_order input = None"
    by (rule first_success_None)
  then have a: "parseRangeInput input =
           Inl (DiffxError (''Invalid range or URL: '' @ input @ supported_formats) INVALID_INPUT)"
    by (simp add: parseRangeInput_cascade invalid_range_def)
  have "list_all2 (\<lambda>m e. m (snd e) \<noteq> None \<and> e \<in> set accepted_examples)
              matcher_order accepted_examples"
    by code_simp
  then have "list_all2 (\<lambda>m e. m (snd e) \<noteq> None \<and> str_includes supported_formats (fst e @ snd e))
              matcher_order accepted_examples"
    by (rule list_all2_mono) (auto intro: example_in_supported_formats)
  with a show ?thesis by simp
qed

theorem parseRangeInput_unsupported_witness:
  "list_all (\<lambda>m. m ''HEAD~1'' = None) matcher_order
   \<and> parseRangeInput ''HEAD~1'' =
       Inl (DiffxError (''Invalid range or URL: '' @ ''HEAD~1'' @ supported_formats) INVALID_INPUT)"
proof -
  have h: "list_all (\<lambda>m. m ''HEAD~1'' = None) matcher_order"
    by code_simp
  then have "\<forall>m \<in> set matcher_order. m ''HEAD~1'' = None"
    by (simp add: list_all_iff)
  from parseRangeInput_unsupported [OF this] h show ?thesis by blast
qed

section \<open>Shorthand ranges\<close>

text \<open>
  Claim C9, as stated: \<open>parseRangeInput\<close> maps the shorthand ranges
  \<^verbatim>\<open>github:owner/repo@left..right\<close> to a git-URL range whose two URLs are the SSH URL
  \<^verbatim>\<open>git@github.com:owner/repo.git\<close>. The shorthand matcher is tried after the PR-range and
  the git-URL-range matchers, and they accept some shorthand ranges first. With a left ref
  that contains \<^verbatim>\<open>@\<close>, \<^verbatim>\<open>github:o/r@user@feature..main\<close> is a shorthand range of
  \<^verbatim>\<open>o/r\<close> from \<^verbatim>\<open>user@feature\<close> to \<^verbatim>\<open>main\<close>, but it parses as a git-URL range of the
  URL \<^verbatim>\<open>github:o/r@user\<close>; and \<^verbatim>\<open>github:o/r@x#1..github:o/r#2\<close> is a shorthand range as
  well, but it parses as a PR range.
\<close>

theorem shorthand_range_taken_by_earlier_matcher:
  "parseGithubRefRange ''github:o/r@user@feature..main'' = Some (''o/r'', ''user@feature'', ''main'')
   \<and> parseRangeInput ''github:o/r@user@feature..main'' =
       Inr (git_url_range_of (''github:o/r@user'', ''feature'', ''github:o/r@user'', ''main''))
   \<and> leftGitUrl (git_url_range_of (''github:o/r@user'', ''feature'', ''github:o/r@user'', ''main''))
       = Some ''github:o/r@user''
   \<and> parseGithubRefRange ''github:o/r@x#1..github:o/r#2'' = Some (''o/r'', ''x#1'', ''github:o/r#2'')
   \<and> parseRangeInput ''github:o/r@x#1..github:o/r#2'' =
       Inr (pr_range_of (\<lparr> owner = ''o'', repo = ''r@x'', number = 1 \<rparr>,
                         \<lparr> owner = ''o'', repo = ''r'', number = 2 \<rparr>))
   \<and> type (pr_range_of (\<lparr> owner = ''o'', repo = ''r@x'', number = 1 \<rparr>,
                         \<lparr> owner = ''o'', repo = ''r'', number = 2 \<rparr>)) = PrRange"
proof -
  have 1: "parseGithubRefRange ''github:o/r@user@feature..main'' = Some (''o/r'', ''user@feature'', ''main'')"
    by code_simp
  have 2: "parseRangeInput ''github:o/r@user@feature..main'' =
       Inr (git_url_range_of (''github:o/r@user'', ''feature'', ''github:o/r@user'', ''main''))"
    by code_simp
  have 3: "leftGitUrl (git_url_range_of (''github:o/r@user'', ''feature'', ''github:o/r@user'', ''main''))
       = Some ''github:o/r@user''"
    by (simp add: git_url_range_of_def mkRange_def)
  have 4: "parseGithubRefRange ''github:o/r@x#1..github:o/r#2'' = Some (''o/r'', ''x#1'', ''github:o/r#2'')"
    by code_simp
  have 5: "parseRangeInput ''github:o/r@x#1..github:o/r#2'' =
       Inr (pr_range_of (\<lparr> owner = ''o'', repo = ''r@x'', number = 1 \<rparr>,
                         \<lparr> owner = ''o'', repo = ''r'', number = 2 \<rparr>))"
    by code_simp
  have 6: "type (pr_range_of (\<lparr> owner = ''o'', repo = ''r@x'', number = 1 \<rparr>,
                         \<lparr> owner = ''o'', repo = ''r'', number = 2 \<rparr>)) = PrRange"
    by (simp add: pr_range_of_def mkRange_def)
  from 1 2 3 4 5 6 show ?thesis by (intro conjI)
qed

text \<open>
  Claim C9, amended. A shorthand range \<^verbatim>\<open>github:owner/repo@left..right\<close> (resp.
  \<^verbatim>\<open>gitlab:\<close>) that neither the PR-range matcher nor the git-URL-range matcher accepts is
  parsed as a range of type \<open>git-url-range\<close> with both git URLs set to
  \<^verbatim>\<open>git@github.com:owner/repo.git\<close> (resp. \<^verbatim>\<open>git@gitlab.com:owner/repo.git\<close>); it is
  resolved by the git-URL resolver, whose single fetch goes to that SSH URL. The other
  matchers of higher precedence never accept a shorthand range.
\<close>

theorem shorthand_range_is_ssh_git_url_range:
  assumes "parsePRRange input = None" and "parseGitUrlRange input = None"
      and "(host = ''github.com'' \<and> parseGithubRefRange input = Some (orp, l, r))
           \<or> (host = ''gitlab.com'' \<and> parseGitlabRefRange input = Some (orp, l, r))"
  shows "(let gitUrl = ''git@'' @ host @ '':'' @ orp @ ''.git'';
              rng = (mkRange GitUrlRange l r) \<lparr> leftGitUrl := Some gitUrl, rightGitUrl := Some gitUrl \<rparr>
          in parseRangeInput input = Inr rng
             \<and> resolveRefs env tempPrefix rng s = resolveGitUrlRefs env tempPrefix rng s
             \<and> calls (snd (resolveRefs env tempPrefix rng s)) =
                 calls s @ [Fetch gitUrl [l @ '':'' @ tempPrefix @ ''/left'',
                                          r @ '':'' @ tempPrefix @ ''/right''] 1])"
proof -
  let ?gitUrl = "''git@'' @ host @ '':'' @ orp @ ''.git''"
  let ?rng = "(mkRange GitUrlRange l r) \<lparr> leftGitUrl := Some ?gitUrl, rightGitUrl := Some ?gitUrl \<rparr>"
  from assms(3)
  have sh: "parseGithubRefRange input = Some (orp, l, r) \<or> parseGitlabRefRange input = Some (orp, l, r)"
    by blast
  note nu = host_range_not_url[OF sh]
  have p: "parseRangeInput input = Inr ?rng"
  proof (cases "host = ''github.com'' \<and> parseGithubRefRange input = Some (orp, l, r)")
    case True
    then show ?thesis
      by (simp add: parseRangeInput_def assms(1,2) nu host_ref_range_of_def Let_def)
  next
    case False
    with assms(3) have g: "host = ''gitlab.com''" "parseGitlabRefRange input = Some (orp, l, r)"
      by blast+
    from gitlab_range_not_github[OF g(2)] g show ?thesis
      by (simp add: parseRangeInput_def assms(1,2) nu host_ref_range_of_def Let_def)
  qed
  have d: "resolveRefs env tempPrefix ?rng s = resolveGitUrlRefs env tempPrefix ?rng s"
    by (simp add: resolveRefs_def mkRange_def)
  have c: "calls (snd (resolveGitUrlRefs env tempPrefix ?rng s)) =
                 calls s @ [Fetch ?gitUrl [l @ '':'' @ tempPrefix @ ''/left'',
                                          r @ '':'' @ tempPrefix @ ''/right''] 1]"
    by (simp add: resolveGitUrlRefs_def mkRange_def falsy_def wrap_git_error_def
          fetchFromUrl_effect refspec_text_def Let_def split: option.splits)
  from p d c show ?thesis by (simp add: Let_def)
qed

theorem shorthand_range_is_ssh_git_url_range_witness:
  "parsePRRange ''github:owner/repo@main..feature'' = None
   \<and> parseGitUrlRange ''github:owner/repo@main..feature'' = None
   \<and> parseGithubRefRange ''github:owner/repo@main..feature'' = Some (''owner/repo'', ''main'', ''feature'')
   \<and> parseRangeInput ''github:owner/repo@main..feature'' =
       Inr ((mkRange GitUrlRange ''main'' ''feature'')
              \<lparr> leftGitUrl := Some ''git@github.com:owner/repo.git'',
                rightGitUrl := Some ''git@github.com:owner/repo.git'' \<rparr>)
   \<and> calls (snd (resolveRefs env_ok ''refs/diffx/tmp/t''
        ((mkRange GitUrlRange ''main'' ''feature'')
              \<lparr> leftGitUrl := Some ''git@github.com:owner/repo.git'',
                rightGitUrl := Some ''git@github.com:owner/repo.git'' \<rparr>) initial_state)) =
       [Fetch ''git@github.com:owner/repo.git''
          [''main:refs/diffx/tmp/t/left'', ''feature:refs/diffx/tmp/t/right''] 1]"
proof -
  have a: "parsePRRange ''github:owner/repo@main..feature'' = None"
    by code_simp
  have b: "parseGitUrlRange ''github:owner/repo@main..feature'' = None"
    by code_simp
  have c: "parseGithubRefRange ''github:owner/repo@main..feature'' = Some (''owner/repo'', ''main'', ''feature'')"
    by code_simp
  then have c': "(''github.com'' = ''github.com''
        \<and> parseGithubRefRange ''github:owner/repo@main..feature'' = Some (''owner/repo'', ''main'', ''feature''))
      \<or> (''github.com'' = ''gitlab.com''
        \<and> parseGitlabRefRange ''github:owner/repo@main..feature'' = Some (''owner/repo'', ''main'', ''feature''))"
    by simp
  note w = shorthand_range_is_ssh_git_url_range
             [OF a b c', of env_ok "''refs/diffx/tmp/t''" initial_state, unfolded Let_def]
  from w [THEN conjunct1]
  have 1: "parseRangeInput ''github:owner/repo@main..feature'' =
       Inr ((mkRange GitUrlRange ''main'' ''feature'')
              \<lparr> leftGitUrl := Some ''git@github.com:owner/repo.git'',
                rightGitUrl := Some ''git@github.com:owner/repo.git'' \<rparr>)"
    by simp
  from w [THEN conjunct2, THEN conjunct2]
  have 2: "calls (snd (resolveRefs env_ok ''refs/diffx/tmp/t''
        ((mkRange GitUrlRange ''main'' ''feature'')
              \<lparr> leftGitUrl := Some ''git@github.com:owner/repo.git'',
                rightGitUrl := Some ''git@github.com:owner/repo.git'' \<rparr>) initial_state)) =
       [Fetch ''git@github.com:owner/repo.git''
          [''main:refs/diffx/tmp/t/left'', ''feature:refs/diffx/tmp/t/right''] 1]"
    by (simp add: initial_state_def)
  from a b c 1 2 show ?thesis by (intro conjI)
qed

section \<open>Remote ranges whose sides name different repositories\<close>

text \<open>
  Claim C10, as stated: every remote-shorthand input whose two full sides name different
  owner/repo pairs falls through to \<open>local-range\<close> and is then rejected by the local
  resolver as a nonexistent local ref. The example \<^verbatim>\<open>a/b@x..c/d@y\<close> does parse as a local
  range, but the local resolver only asks git whether each side is a revision: where both
  are (a repository with branches named \<^verbatim>\<open>a/b@x\<close> and \<^verbatim>\<open>c/d@y\<close>), it resolves the range.
  And not every such input reaches the local matcher or is accepted by it:
  \<^verbatim>\<open>u@a:b/c@x..d/e@y\<close> is taken by the git-URL-range matcher, and \<^verbatim>\<open>a/b@x..c/d@y..z\<close>
  (right side \<^verbatim>\<open>c/d\<close> at ref \<^verbatim>\<open>y..z\<close>) is rejected by the parser itself.
\<close>

theorem mismatched_remote_range_not_always_rejected:
  "parseRangeInput ''a/b@x..c/d@y'' = Inr (local_range_of (''a/b@x'', ''c/d@y''))
   \<and> fst (resolveRefs env_ok ''refs/diffx/tmp/t'' (local_range_of (''a/b@x'', ''c/d@y''))
            initial_state) =
       Inr \<lparr> res_left = ''a/b@x'', res_right = ''c/d@y'', cleanup = None \<rparr>
   \<and> parseRemoteSide ''u@a:b/c@x'' = Some (''u@a:b'', ''c'', ''x'')
   \<and> parseRemoteSide ''d/e@y'' = Some (''d'', ''e'', ''y'')
   \<and> parseRangeInput ''u@a:b/c@x..d/e@y'' =
       Inr (git_url_range_of (''u@a:b/c'', ''x'', ''u@a:b/c'', ''d/e@y''))
   \<and> parseRemoteSide ''a/b@x'' = Some (''a'', ''b'', ''x'')
   \<and> parseRemoteSide ''c/d@y..z'' = Some (''c'', ''d'', ''y..z'')
   \<and> parseRangeInput ''a/b@x..c/d@y..z'' = Inl (invalid_range ''a/b@x..c/d@y..z'')"
proof -
  have 1: "parseRangeInput ''a/b@x..c/d@y'' = Inr (local_range_of (''a/b@x'', ''c/d@y''))"
    by code_simp
  have 2: "fst (resolveRefs env_ok ''refs/diffx/tmp/t'' (local_range_of (''a/b@x'', ''c/d@y''))
            initial_state) =
       Inr \<lparr> res_left = ''a/b@x'', res_right = ''c/d@y'', cleanup = None \<rparr>"
    by code_simp
  have 3: "parseRemoteSide ''u@a:b/c@x'' = Some (''u@a:b'', ''c'', ''x'')"
    by code_simp
  have 4: "parseRemoteSide ''d/e@y'' = Some (''d'', ''e'', ''y'')"
    by code_simp
  have 5: "parseRangeInput ''u@a:b/c@x..d/e@y'' =
       Inr (git_url_range_of (''u@a:b/c'', ''x'', ''u@a:b/c'', ''d/e@y''))"
    by code_simp
  have 6: "parseRemoteSide ''a/b@x'' = Some (''a'', ''b'', ''x'')"
    by code_simp
  have 7: "parseRemoteSide ''c/d@y..z'' = Some (''c'', ''d'', ''y..z'')"
    by code_simp
  have 8: "parseRangeInput ''a/b@x..c/d@y..z'' = Inl (invalid_range ''a/b@x..c/d@y..z'')"
    by code_simp
  from 1 2 3 4 5 6 7 8 show ?thesis by (intro conjI)
qed

text \<open>
  Claim C10, amended. When the two sides of a remote-shorthand input (the trimmed parts
  before and after the first \<^verbatim>\<open>..\<close>) name different owner/repo pairs, the remote-range
  matcher declines. If no matcher of higher precedence accepts the input, the parser's
  result is that of the local-range matcher: a local range whose sides are those two
  trimmed parts when the input has a single \<^verbatim>\<open>..\<close>, the parser's own \<open>INVALID_INPUT\<close>
  error otherwise. The local resolver rejects such a range with \<open>INVALID_INPUT\<close>, naming
  the left or the right side, exactly when git does not know that side as a revision;
  it never reports a malformed remote range.
\<close>

theorem mismatched_remote_range_is_local:
  assumes "indexOf input ''..'' = Some i"
      and "parseRemoteSide (trim (take i input)) = Some (lo, lr, lref)"
      and "parseRemoteSide (trim (drop (i + 2) input)) = Some (ro, rr, rref)"
      and "lo \<noteq> ro \<or> lr \<noteq> rr"
  shows "parseRemoteRefRange input = None
       \<and> (first_success (take 10 matcher_order) input = None \<longrightarrow>
            parseRangeInput input =
              (case parseLocalRefRange input of
                 Some sides \<Rightarrow> Inr (local_range_of sides)
               | None \<Rightarrow> Inl (invalid_range input)))
       \<and> (\<forall>l r. parseLocalRefRange input = Some (l, r) \<longrightarrow>
              l = trim (take i input) \<and> r = trim (drop (i + 2) input))
       \<and> (\<forall>l r. fst (resolveRefs env tempPrefix (local_range_of (l, r)) s) =
              (if \<not> rev_parse_ok env s (normalizeRef l)
               then Inl (DiffxError (''Left ref does not exist: '' @ l) INVALID_INPUT)
               else if \<not> rev_parse_ok env (logged (RevParseVerify (normalizeRef l)) s)
                           (normalizeRef r)
               then Inl (DiffxError (''Right ref does not exist: '' @ r) INVALID_INPUT)
               else Inr \<lparr> res_left = normalizeRef l, res_right = normalizeRef r,
                           cleanup = None \<rparr>))"
proof -
  note rem = parseRemoteRefRange_mismatch[OF assms]
  have fall: "first_success (take 10 matcher_order) input = None \<longrightarrow>
            parseRangeInput input =
              (case parseLocalRefRange input of
                 Some sides \<Rightarrow> Inr (local_range_of sides)
               | None \<Rightarrow> Inl (invalid_range input))"
  proof
    assume "first_success (take 10 matcher_order) input = None"
    from higher_than_remote_decline[OF this] rem show "parseRangeInput input =
              (case parseLocalRefRange input of
                 Some sides \<Rightarrow> Inr (local_range_of sides)
               | None \<Rightarrow> Inl (invalid_range input))"
      by (simp add: parseRangeInput_def split: option.splits)
  qed
  have sides: "\<forall>l r. parseLocalRefRange input = Some (l, r) \<longrightarrow>
              l = trim (take i input) \<and> r = trim (drop (i + 2) input)"
    using parseLocalRefRange_sides assms(1) by fastforce
  from rem fall sides resolveLocalRefs_result show ?thesis by blast
qed

theorem mismatched_remote_range_is_local_witness:
  "indexOf ''a/b@x..c/d@y'' ''..'' = Some 5
   \<and> parseRemoteSide (trim (take 5 ''a/b@x..c/d@y'')) = Some (''a'', ''b'', ''x'')
   \<and> parseRemoteSide (trim (drop (5 + 2) ''a/b@x..c/d@y'')) = Some (''c'', ''d'', ''y'')
   \<and> parseRemoteRefRange ''a/b@x..c/d@y'' = None
   \<and> first_success (take 10 matcher_order) ''a/b@x..c/d@y'' = None
   \<and> parseRangeInput ''a/b@x..c/d@y'' = Inr (local_range_of (''a/b@x'', ''c/d@y''))
   \<and> fst (resolveRefs (env_ok \<lparr> rev_parse_ok := (\<lambda>s ref. False) \<rparr>) ''refs/diffx/tmp/t''
            (local_range_of (''a/b@x'', ''c/d@y'')) initial_state) =
       Inl (DiffxError ''Left ref does not exist: a/b@x'' INVALID_INPUT)"
proof -
  let ?in = "''a/b@x..c/d@y''"
  let ?env = "env_ok \<lparr> rev_parse_ok := (\<lambda>s ref. False) \<rparr>"
  have a: "indexOf ?in ''..'' = Some 5"
    by code_simp
  have b: "parseRemoteSide (trim (take 5 ?in)) = Some (''a'', ''b'', ''x'')"
    by code_simp
  have c: "parseRemoteSide (trim (drop (5 + 2) ?in)) = Some (''c'', ''d'', ''y'')"
    by code_simp
  have d: "''a'' \<noteq> ''c'' \<or> ''b'' \<noteq> ''d''"
    by simp
  have e: "first_success (take 10 matcher_order) ?in = None"
    by code_simp
  have f: "parseLocalRefRange ?in = Some (''a/b@x'', ''c/d@y'')"
    by code_simp
  note w = mismatched_remote_range_is_local [OF a b c d, of ?env "''refs/diffx/tmp/t''" initial_state]
  from w have 1: "parseRemoteRefRange ?in = None"
    by (elim conjE)
  from w e f have 2: "parseRangeInput ?in = Inr (local_range_of (''a/b@x'', ''c/d@y''))"
    by simp
  from w have "\<forall>l r. fst (resolveRefs ?env ''refs/diffx/tmp/t'' (local_range_of (l, r)) initial_state) =
              (if \<not> rev_parse_ok ?env initial_state (normalizeRef l)
               then Inl (DiffxError (''Left ref does not exist: '' @ l) INVALID_INPUT)
               else if \<not> rev_parse_ok ?env (logged (RevParseVerify (normalizeRef l)) initial_state)
                           (normalizeRef r)
               then Inl (DiffxError (''Right ref does not exist: '' @ r) INVALID_INPUT)
               else Inr \<lparr> res_left = normalizeRef l, res_right = normalizeRef r,
                           cleanup = None \<rparr>)"
    by (elim conjE)
  then have 3: "fst (resolveRefs ?env ''refs/diffx/tmp/t''
            (local_range_of (''a/b@x'', ''c/d@y'')) initial_state) =
       Inl (DiffxError ''Left ref does not exist: a/b@x'' INVALID_INPUT)"
    by simp
  from a b c 1 e 2 3 show ?thesis by (intro conjI)
qed

end
